theory Spec2Isabelle
  imports Complex_Main
begin

section \<open>Conventions of the embedding\<close>

text \<open>
  The simulation computes with IEEE double precision numbers. The embedding idealises
  them as the real numbers, with one exception: the number of integration steps is the
  ceiling of the quotient \<open>duration / dt\<close>, which changes by one when the quotient is
  rounded across an integer, so that one division is rounded to double precision as
  Python rounds it (\<open>true_div\<close> below). Everywhere else rounding, infinities and NaN are
  not modelled. A NumPy array
  of shape \<open>(N, 2)\<close> is a list of \<open>N\<close> pairs, an array of shape \<open>(N,)\<close> a list of reals.
  Every exception the Python code can raise is a value of \<open>py_error\<close>, and a function
  that may raise returns \<open>py_error + 'a\<close> with \<open>Inl\<close> for the exception.
\<close>

type_synonym vec2 = "real \<times> real"

datatype py_error = ValueError string | ZeroDivisionError | IndexError | OverflowError

definition vadd :: "vec2 \<Rightarrow> vec2 \<Rightarrow> vec2" where
  "vadd u v = (fst u + fst v, snd u + snd v)"

definition vsub :: "vec2 \<Rightarrow> vec2 \<Rightarrow> vec2" where
  "vsub u v = (fst u - fst v, snd u - snd v)"

definition smul :: "real \<Rightarrow> vec2 \<Rightarrow> vec2" where
  "smul c v = (c * fst v, c * snd v)"

definition vdot :: "vec2 \<Rightarrow> vec2 \<Rightarrow> real" where
  "vdot u v = fst u * fst v + snd u * snd v"

definition sum_sq :: "vec2 \<Rightarrow> real" where
  \<comment> \<open>\<open>np.sum(v**2)\<close> of one row\<close>
  "sum_sq v = (fst v)\<^sup>2 + (snd v)\<^sup>2"

definition linalg_norm :: "vec2 \<Rightarrow> real" where
  \<comment> \<open>\<open>np.linalg.norm\<close> of one row\<close>
  "linalg_norm v = sqrt (sum_sq v)"

definition nth_err :: "'a list \<Rightarrow> nat \<Rightarrow> py_error + 'a" where
  \<comment> \<open>indexing with a non-negative index: out of range raises IndexError\<close>
  "nth_err xs i = (if i < length xs then Inr (xs ! i) else Inl IndexError)"

definition scale :: "real \<Rightarrow> vec2 list \<Rightarrow> vec2 list" where
  \<comment> \<open>a scalar times an array of shape \<open>(N, 2)\<close>\<close>
  "scale c xs = map (smul c) xs"

definition vsum :: "vec2 list \<Rightarrow> vec2" where
  \<comment> \<open>\<open>.sum(axis=0)\<close> of an array of shape \<open>(N, 2)\<close>\<close>
  "vsum vs = foldr vadd vs (0, 0)"

text \<open>
  NumPy broadcasting along the first axis: two arrays with the same number of rows pair
  up row by row, an array with one row pairs that row with every row of the other, and
  anything else raises.
\<close>

definition broadcast_rows :: "'a list \<Rightarrow> 'b list \<Rightarrow> py_error + ('a \<times> 'b) list" where
  "broadcast_rows xs ys =
     (if length xs = length ys then Inr (zip xs ys)
      else if length xs = 1 then Inr (map (\<lambda>y. (hd xs, y)) ys)
      else if length ys = 1 then Inr (map (\<lambda>x. (x, hd ys)) xs)
      else Inl (ValueError ''operands could not be broadcast together''))"

definition np_add :: "vec2 list \<Rightarrow> vec2 list \<Rightarrow> py_error + vec2 list" where
  "np_add xs ys =
     (case broadcast_rows xs ys of
        Inl e \<Rightarrow> Inl e
      | Inr rows \<Rightarrow> Inr (map (\<lambda>(x, y). vadd x y) rows))"

definition np_assign :: "nat \<Rightarrow> vec2 list \<Rightarrow> py_error + vec2 list" where
  \<comment> \<open>the value stored by \<open>arr[k] = val\<close> in a slot of shape \<open>(n, 2)\<close>\<close>
  "np_assign n val =
     (if length val = n then Inr val
      else if length val = 1 then Inr (replicate n (hd val))
      else Inl (ValueError ''could not broadcast input array''))"


section \<open>Bodies and system states (core/bodies.py)\<close>

text \<open>
  A \<open>Body\<close> owns two NumPy arrays, its position and its velocity, and the integrators
  overwrite them in place. The arrays live in a heap, a list of cells addressed by their
  index; a body holds the addresses of its two arrays. Allocating an array appends a cell.
  The record is polymorphic in what it holds for the two arrays: addresses for the
  objects of the program, vectors for what a reader of the object sees.

  Besides the heap, the state of the world keeps the list of the states on which the
  acceleration function has been evaluated, in order; it records the calls and nothing
  reads it.
\<close>

type_synonym addr = nat

record 'p body =
  name :: string
  mass :: real
  position :: 'p
  velocity :: 'p
  color :: string

type_synonym system_state = "addr body list"

type_synonym system_view = "vec2 body list"

record world =
  heap :: "vec2 list"
  evals :: "system_view list"

type_synonym 'a prog = "world \<Rightarrow> (py_error + 'a) \<times> world"

definition returns :: "'a \<Rightarrow> 'a prog" where
  "returns x = (\<lambda>w. (Inr x, w))"

definition raises :: "py_error \<Rightarrow> 'a prog" where
  "raises e = (\<lambda>w. (Inl e, w))"

definition lift :: "py_error + 'a \<Rightarrow> 'a prog" where
  "lift r = (\<lambda>w. (r, w))"

definition seq :: "'a prog \<Rightarrow> ('a \<Rightarrow> 'b prog) \<Rightarrow> 'b prog" where
  \<comment> \<open>run \<open>m\<close>, then \<open>k\<close> on its result; an exception of \<open>m\<close> ends the run\<close>
  "seq m k = (\<lambda>w. case m w of (Inl e, w') \<Rightarrow> (Inl e, w') | (Inr x, w') \<Rightarrow> k x w')"

definition body_view :: "vec2 list \<Rightarrow> addr body \<Rightarrow> vec2 body" where
  "body_view h b = \<lparr> name = name b, mass = mass b, position = h ! position b,
                     velocity = h ! velocity b, color = color b \<rparr>"

definition view :: "vec2 list \<Rightarrow> system_state \<Rightarrow> system_view" where
  "view h s = map (body_view h) s"

definition body_copy :: "addr body \<Rightarrow> vec2 list \<Rightarrow> addr body \<times> vec2 list" where
  \<comment> \<open>\<open>Body.copy\<close>: two new arrays with the contents of the old ones\<close>
  "body_copy b h =
     (\<lparr> name = name b, mass = mass b, position = length h, velocity = length h + 1,
        color = color b \<rparr>,
      h @ [h ! position b, h ! velocity b])"

fun copy_bodies :: "addr body list \<Rightarrow> vec2 list \<Rightarrow> addr body list \<times> vec2 list" where
  "copy_bodies [] h = ([], h)"
| "copy_bodies (b # bs) h =
     (let (b', h1) = body_copy b h;
          (bs', h2) = copy_bodies bs h1
      in (b' # bs', h2))"

definition state_copy :: "system_state \<Rightarrow> system_state prog" where
  \<comment> \<open>\<open>SystemState.copy\<close>\<close>
  "state_copy s = (\<lambda>w. let (s', h') = copy_bodies s (heap w) in (Inr s', w\<lparr>heap := h'\<rparr>))"

definition state_positions :: "system_view \<Rightarrow> py_error + vec2 list" where
  \<comment> \<open>the property \<open>positions\<close>; \<open>np.stack\<close> of no arrays raises\<close>
  "state_positions sys =
     (if sys = [] then Inl (ValueError ''need at least one array to stack'')
      else Inr (map position sys))"

definition state_velocities :: "system_view \<Rightarrow> py_error + vec2 list" where
  "state_velocities sys =
     (if sys = [] then Inl (ValueError ''need at least one array to stack'')
      else Inr (map velocity sys))"

definition state_masses :: "system_view \<Rightarrow> real list" where
  "state_masses sys = map mass sys"

fun update_heap :: "system_state \<Rightarrow> vec2 list \<Rightarrow> vec2 list \<Rightarrow> vec2 list \<Rightarrow> vec2 list" where
  "update_heap (b # bs) (p # ps) (v # vs) h =
     update_heap bs ps vs (h[position b := p, velocity b := v])"
| "update_heap _ _ _ h = h"

definition update :: "system_state \<Rightarrow> vec2 list \<Rightarrow> vec2 list \<Rightarrow> unit prog" where
  \<comment> \<open>\<open>SystemState.update\<close>: writes into the arrays of the bodies, as far as \<open>zip\<close> goes\<close>
  "update s ps vs = (\<lambda>w. (Inr (), w\<lparr>heap := update_heap s ps vs (heap w)\<rparr>))"


section \<open>Physics (core/physics.py, core/constants.py)\<close>

definition gravitational_constant :: real where
  "gravitational_constant = 1"

definition inv_dist_cubed :: "real \<Rightarrow> real" where
  \<comment> \<open>\<open>np.where(distance_sq > 0.0, distance_sq ** -1.5, 0.0)\<close> of one entry\<close>
  "inv_dist_cubed distance_sq = (if distance_sq > 0 then distance_sq powr (- 1.5) else 0)"

definition force_row :: "vec2 \<Rightarrow> real \<times> vec2 \<Rightarrow> vec2" where
  \<comment> \<open>one row of \<open>force\<close> for the body at \<open>p_i\<close>: the pull of a mass \<open>m_j\<close> at \<open>p_j\<close>\<close>
  "force_row p_i row =
     (let displacement = vsub p_i (snd row);
          distance_sq = sum_sq displacement
      in smul (- gravitational_constant)
           (smul (inv_dist_cubed distance_sq) (smul (fst row) displacement)))"

definition compute_pairwise_gravity :: "vec2 list \<Rightarrow> real list \<Rightarrow> py_error + vec2 list" where
  "compute_pairwise_gravity positions masses =
     (if positions = [] then Inr []
      else (case broadcast_rows masses positions of
              Inl e \<Rightarrow> Inl e
            | Inr rows \<Rightarrow> Inr (map (\<lambda>p_i. vsum (map (force_row p_i) rows)) positions)))"

definition precession_error :: py_error where
  "precession_error = ValueError ''Precession requires bodies named 'Planet' and 'Moon'.''"

fun first_index :: "string \<Rightarrow> system_view \<Rightarrow> nat \<Rightarrow> nat option" where
  \<comment> \<open>\<open>next(i for i, body in enumerate(bodies) if body.name == n)\<close>, \<open>None\<close> for StopIteration\<close>
  "first_index n [] i = None"
| "first_index n (b # bs) i = (if name b = n then Some i else first_index n bs (i + 1))"

definition dict_get :: "(string \<times> real) list \<Rightarrow> string \<Rightarrow> real \<Rightarrow> real" where
  "dict_get d k dflt = (case map_of d k of None \<Rightarrow> dflt | Some v \<Rightarrow> v)"

text \<open>
  \<open>apply_precession\<close> changes the array \<open>accelerations\<close> in place and returns nothing; the
  model returns the array as the call leaves it.
\<close>

definition apply_precession ::
  "system_view \<Rightarrow> vec2 list \<Rightarrow> (string \<times> real) list \<Rightarrow> py_error + vec2 list" where
  "apply_precession system accelerations precession_config =
     (let strength = dict_get precession_config ''moon_precession_strength'' 0
      in if strength = 0 then Inr accelerations
         else (case first_index ''Planet'' system 0 of
                 None \<Rightarrow> Inl precession_error
               | Some planet_index \<Rightarrow>
           (case first_index ''Moon'' system 0 of
                 None \<Rightarrow> Inl precession_error
               | Some moon_index \<Rightarrow>
             (let planet_pos = position (system ! planet_index);
                  moon_pos = position (system ! moon_index);
                  relative_vector = vsub moon_pos planet_pos;
                  radius = linalg_norm relative_vector
              in if radius = 0 then Inr accelerations
                 else (let tangential_direction =
                             (- snd relative_vector / radius, fst relative_vector / radius)
                       in (case nth_err accelerations moon_index of
                             Inl e \<Rightarrow> Inl e
                           | Inr a \<Rightarrow>
                               Inr (accelerations
                                      [moon_index := vadd a (smul strength tangential_direction)])))))))"

definition compute_accelerations ::
  "system_view \<Rightarrow> (string \<times> real) list option \<Rightarrow> py_error + vec2 list" where
  "compute_accelerations system precession_config =
     (case state_positions system of
        Inl e \<Rightarrow> Inl e
      | Inr positions \<Rightarrow>
          (case compute_pairwise_gravity positions (state_masses system) of
             Inl e \<Rightarrow> Inl e
           | Inr accelerations \<Rightarrow>
               (case precession_config of
                  None \<Rightarrow> Inr accelerations
                | Some cfg \<Rightarrow>
                    if cfg \<noteq> [] then apply_precession system accelerations cfg
                    else Inr accelerations)))"

text \<open>
  In \<open>compute_total_energy\<close> a division by a zero distance does not raise: NumPy yields an
  infinity or a NaN, and the potential is not a finite number from then on. The potential
  is an optional real, \<open>None\<close> standing for a value that is not finite.
\<close>

definition float_div :: "real \<Rightarrow> real \<Rightarrow> real option" where
  "float_div x r = (if r = 0 then None else Some (x / r))"

definition float_sub :: "real option \<Rightarrow> real option \<Rightarrow> real option" where
  "float_sub p q = (case (p, q) of (Some a, Some b) \<Rightarrow> Some (a - b) | _ \<Rightarrow> None)"

fun potential_inner ::
  "vec2 list \<Rightarrow> real list \<Rightarrow> nat \<Rightarrow> nat list \<Rightarrow> real option \<Rightarrow> py_error + real option" where
  "potential_inner positions masses i [] potential = Inr potential"
| "potential_inner positions masses i (j # js) potential =
     (case nth_err positions i of Inl e \<Rightarrow> Inl e | Inr p_i \<Rightarrow>
     (case nth_err positions j of Inl e \<Rightarrow> Inl e | Inr p_j \<Rightarrow>
        (let r = linalg_norm (vsub p_i p_j)
         in potential_inner positions masses i js
              (float_sub potential
                 (float_div (gravitational_constant * masses ! i * masses ! j) r)))))"

fun potential_outer ::
  "vec2 list \<Rightarrow> real list \<Rightarrow> nat \<Rightarrow> nat list \<Rightarrow> real option \<Rightarrow> py_error + real option" where
  "potential_outer positions masses n_bodies [] potential = Inr potential"
| "potential_outer positions masses n_bodies (i # is) potential =
     (case potential_inner positions masses i [i + 1 ..< n_bodies] potential of
        Inl e \<Rightarrow> Inl e
      | Inr p \<Rightarrow> potential_outer positions masses n_bodies is p)"

definition compute_total_energy ::
  "vec2 list \<Rightarrow> vec2 list \<Rightarrow> real list \<Rightarrow> py_error + real \<times> real option" where
  "compute_total_energy positions velocities masses =
     (case broadcast_rows masses velocities of
        Inl e \<Rightarrow> Inl e
      | Inr rows \<Rightarrow>
          (let kinetic = 0.5 * sum_list (map (\<lambda>(m, v). m * (fst v)\<^sup>2 + m * (snd v)\<^sup>2) rows);
               n_bodies = length masses
           in (case potential_outer positions masses n_bodies [0 ..< n_bodies] (Some 0) of
                 Inl e \<Rightarrow> Inl e
               | Inr potential \<Rightarrow> Inr (kinetic, potential))))"


section \<open>Integrators (core/integrators.py)\<close>

text \<open>
  The acceleration function is any function of the state it is handed and of the
  perturbation configuration (a dictionary, or \<open>None\<close>); it sees the bodies of that
  state and changes nothing. It may raise.
\<close>

type_synonym config = "(string \<times> real) list"

type_synonym acceleration_func = "system_view \<Rightarrow> config option \<Rightarrow> py_error + vec2 list"

type_synonym trajectory = "vec2 list list \<times> vec2 list list"

text \<open>
  The quotient \<open>duration / dt\<close> of two Python floats. A zero divisor raises. Otherwise the
  result is the exact quotient rounded to the nearest double, ties to the even
  significand: a double is an integer multiple of \<open>2 ^ (e - 52)\<close>, where \<open>e\<close> is the binary
  exponent of the number and at least \<open>- 1022\<close>, and a rounded magnitude of \<open>2 ^ 1024\<close> or more
  is infinity, written \<open>None\<close>. The conversion \<open>int(np.ceil(inf))\<close> raises \<open>OverflowError\<close>.
\<close>

definition round_half_even :: "real \<Rightarrow> int" where
  "round_half_even r =
     (let f = \<lfloor>r\<rfloor>; d = r - of_int f
      in if d < 1 / 2 then f else if d > 1 / 2 then f + 1 else if even f then f else f + 1)"

definition double_round :: "real \<Rightarrow> real option" where
  "double_round x =
     (if x = 0 then Some 0
      else (let e = max \<lfloor>log 2 \<bar>x\<bar>\<rfloor> (- 1022);
                quantum = 2 powr of_int (e - 52);
                r = of_int (round_half_even (x / quantum)) * quantum
            in if \<bar>r\<bar> \<ge> 2 ^ 1024 then None else Some r))"

definition true_div :: "real \<Rightarrow> real \<Rightarrow> py_error + real option" where
  "true_div a b = (if b = 0 then Inl ZeroDivisionError else Inr (double_round (a / b)))"

definition n_steps_of :: "real \<Rightarrow> real \<Rightarrow> py_error + int" where
  \<comment> \<open>\<open>int(np.ceil(duration / dt))\<close>\<close>
  "n_steps_of duration dt =
     (case true_div duration dt of
        Inl e \<Rightarrow> Inl e
      | Inr None \<Rightarrow> Inl OverflowError
      | Inr (Some q) \<Rightarrow> Inr \<lceil>q\<rceil>)"

definition three_tenths :: real where
  \<comment> \<open>the double nearest to \<open>0.3\<close>, which is \<open>5404319552844595 / 2 ^ 54\<close>\<close>
  "three_tenths = 5404319552844595 / 18014398509481984"

definition np_zeros :: "int \<Rightarrow> nat \<Rightarrow> py_error + vec2 list list" where
  \<comment> \<open>\<open>np.zeros((k, n_bodies, 2))\<close>\<close>
  "np_zeros k n_bodies =
     (if k < 0 then Inl (ValueError ''negative dimensions are not allowed'')
      else Inr (replicate (nat k) (replicate n_bodies (0, 0))))"

definition store :: "vec2 list list \<Rightarrow> nat \<Rightarrow> nat \<Rightarrow> vec2 list \<Rightarrow> py_error + vec2 list list" where
  \<comment> \<open>\<open>arr[k] = val\<close> for an array of shape \<open>(_, n_bodies, 2)\<close>\<close>
  "store arr n_bodies k val =
     (if k < length arr
      then (case np_assign n_bodies val of Inl e \<Rightarrow> Inl e | Inr row \<Rightarrow> Inr (arr[k := row]))
      else Inl IndexError)"

definition read_positions :: "system_state \<Rightarrow> vec2 list prog" where
  "read_positions s = (\<lambda>w. (state_positions (view (heap w) s), w))"

definition read_velocities :: "system_state \<Rightarrow> vec2 list prog" where
  "read_velocities s = (\<lambda>w. (state_velocities (view (heap w) s), w))"

definition evaluate :: "acceleration_func \<Rightarrow> system_state \<Rightarrow> config option \<Rightarrow> vec2 list prog" where
  \<comment> \<open>the call \<open>acceleration_fn(temp_state, precession_config)\<close>, recorded in \<open>evals\<close>\<close>
  "evaluate acceleration_fn s precession_config =
     (\<lambda>w. let sys = view (heap w) s
          in (acceleration_fn sys precession_config, w\<lparr>evals := evals w @ [sys]\<rparr>))"

type_synonym leapfrog_vars = "vec2 list list \<times> vec2 list list \<times> vec2 list"

definition leapfrog_step ::
  "acceleration_func \<Rightarrow> config option \<Rightarrow> real \<Rightarrow> system_state \<Rightarrow> nat \<Rightarrow> nat \<Rightarrow> leapfrog_vars
     \<Rightarrow> leapfrog_vars prog" where
  "leapfrog_step acceleration_fn precession_config dt temp_state n_bodies step vars =
     (case vars of (positions, velocities, accel) \<Rightarrow>
      seq (lift (np_add (positions ! (step - 1)) (scale dt (velocities ! (step - 1))))) (\<lambda>pv.
      seq (lift (np_add pv (scale dt (scale dt (scale 0.5 accel))))) (\<lambda>new_positions.
      seq (update temp_state new_positions (velocities ! (step - 1))) (\<lambda>_.
      seq (evaluate acceleration_fn temp_state precession_config) (\<lambda>new_accel.
      seq (lift (np_add accel new_accel)) (\<lambda>accel_sum.
      seq (lift (np_add (velocities ! (step - 1)) (scale dt (scale 0.5 accel_sum))))
        (\<lambda>new_velocities.
      seq (lift (store positions n_bodies step new_positions)) (\<lambda>positions'.
      seq (lift (store velocities n_bodies step new_velocities)) (\<lambda>velocities'.
      returns (positions', velocities', new_accel))))))))))"

fun leapfrog_loop ::
  "acceleration_func \<Rightarrow> config option \<Rightarrow> real \<Rightarrow> system_state \<Rightarrow> nat \<Rightarrow> nat list \<Rightarrow> leapfrog_vars
     \<Rightarrow> leapfrog_vars prog" where
  "leapfrog_loop acceleration_fn precession_config dt temp_state n_bodies [] vars = returns vars"
| "leapfrog_loop acceleration_fn precession_config dt temp_state n_bodies (step # steps) vars =
     seq (leapfrog_step acceleration_fn precession_config dt temp_state n_bodies step vars)
       (leapfrog_loop acceleration_fn precession_config dt temp_state n_bodies steps)"

definition leapfrog ::
  "system_state \<Rightarrow> real \<Rightarrow> real \<Rightarrow> acceleration_func \<Rightarrow> config option \<Rightarrow> trajectory prog" where
  "leapfrog state duration dt acceleration_fn precession_config =
     seq (lift (n_steps_of duration dt)) (\<lambda>n_steps.
     seq (lift (np_zeros (n_steps + 1) (length state))) (\<lambda>zeros.
     seq (read_positions state) (\<lambda>p0.
     seq (lift (store zeros (length state) 0 p0)) (\<lambda>positions.
     seq (read_velocities state) (\<lambda>v0.
     seq (lift (store zeros (length state) 0 v0)) (\<lambda>velocities.
     seq (state_copy state) (\<lambda>temp_state.
     seq (evaluate acceleration_fn temp_state precession_config) (\<lambda>accel.
     seq (leapfrog_loop acceleration_fn precession_config dt temp_state (length state)
            [1 ..< nat (n_steps + 1)] (positions, velocities, accel)) (\<lambda>vars.
     returns (fst vars, fst (snd vars)))))))))))"

text \<open>
  One step of \<open>rk4\<close>. The stage derivatives \<open>k1_pos\<close>, \<open>k1_vel\<close>, \<open>k2_vel\<close>, \<open>k3_vel\<close> and
  \<open>k4_vel\<close> of the source are other names of \<open>vel\<close>, \<open>a1\<close>, \<open>a2\<close>, \<open>a3\<close> and \<open>a4\<close>.
\<close>

definition rk4_step ::
  "acceleration_func \<Rightarrow> config option \<Rightarrow> real \<Rightarrow> system_state \<Rightarrow> nat \<Rightarrow> nat \<Rightarrow> trajectory
     \<Rightarrow> trajectory prog" where
  "rk4_step acceleration_fn precession_config dt temp_state n_bodies step vars =
     (case vars of (positions, velocities) \<Rightarrow>
     (let pos = positions ! (step - 1);
          vel = velocities ! (step - 1)
      in
      seq (update temp_state pos vel) (\<lambda>_.
      seq (evaluate acceleration_fn temp_state precession_config) (\<lambda>a1.
      seq (lift (np_add pos (scale (0.5 * dt) vel))) (\<lambda>pos2.
      seq (lift (np_add vel (scale (0.5 * dt) a1))) (\<lambda>vel2.
      seq (update temp_state pos2 vel2) (\<lambda>_.
      seq (evaluate acceleration_fn temp_state precession_config) (\<lambda>a2.
      seq (lift (np_add vel (scale (0.5 * dt) a1))) (\<lambda>k2_pos.
      seq (lift (np_add pos (scale (0.5 * dt) k2_pos))) (\<lambda>pos3.
      seq (lift (np_add vel (scale (0.5 * dt) a2))) (\<lambda>vel3.
      seq (update temp_state pos3 vel3) (\<lambda>_.
      seq (evaluate acceleration_fn temp_state precession_config) (\<lambda>a3.
      seq (lift (np_add vel (scale (0.5 * dt) a2))) (\<lambda>k3_pos.
      seq (lift (np_add pos (scale dt k3_pos))) (\<lambda>pos4.
      seq (lift (np_add vel (scale dt a3))) (\<lambda>vel4.
      seq (update temp_state pos4 vel4) (\<lambda>_.
      seq (evaluate acceleration_fn temp_state precession_config) (\<lambda>a4.
      seq (lift (np_add vel (scale dt a3))) (\<lambda>k4_pos.
      seq (lift (np_add vel (scale 2 k2_pos))) (\<lambda>s1.
      seq (lift (np_add s1 (scale 2 k3_pos))) (\<lambda>s2.
      seq (lift (np_add s2 k4_pos)) (\<lambda>s3.
      seq (lift (np_add pos (scale (dt / 6) s3))) (\<lambda>new_positions.
      seq (lift (store positions n_bodies step new_positions)) (\<lambda>positions'.
      seq (lift (np_add a1 (scale 2 a2))) (\<lambda>t1.
      seq (lift (np_add t1 (scale 2 a3))) (\<lambda>t2.
      seq (lift (np_add t2 a4)) (\<lambda>t3.
      seq (lift (np_add vel (scale (dt / 6) t3))) (\<lambda>new_velocities.
      seq (lift (store velocities n_bodies step new_velocities)) (\<lambda>velocities'.
      returns (positions', velocities'))))))))))))))))))))))))))))))"

fun rk4_loop ::
  "acceleration_func \<Rightarrow> config option \<Rightarrow> real \<Rightarrow> system_state \<Rightarrow> nat \<Rightarrow> nat list \<Rightarrow> trajectory
     \<Rightarrow> trajectory prog" where
  "rk4_loop acceleration_fn precession_config dt temp_state n_bodies [] vars = returns vars"
| "rk4_loop acceleration_fn precession_config dt temp_state n_bodies (step # steps) vars =
     seq (rk4_step acceleration_fn precession_config dt temp_state n_bodies step vars)
       (rk4_loop acceleration_fn precession_config dt temp_state n_bodies steps)"

definition rk4 ::
  "system_state \<Rightarrow> real \<Rightarrow> real \<Rightarrow> acceleration_func \<Rightarrow> config option \<Rightarrow> trajectory prog" where
  "rk4 state duration dt acceleration_fn precession_config =
     seq (lift (n_steps_of duration dt)) (\<lambda>n_steps.
     seq (lift (np_zeros (n_steps + 1) (length state))) (\<lambda>zeros.
     seq (read_positions state) (\<lambda>p0.
     seq (lift (store zeros (length state) 0 p0)) (\<lambda>positions.
     seq (read_velocities state) (\<lambda>v0.
     seq (lift (store zeros (length state) 0 v0)) (\<lambda>velocities.
     seq (state_copy state) (\<lambda>temp_state.
     rk4_loop acceleration_fn precession_config dt temp_state (length state)
       [1 ..< nat (n_steps + 1)] (positions, velocities))))))))"

text \<open>
  \<open>str.lower\<close> on the letters A to Z; method names are taken to be ASCII strings.
\<close>

definition ascii_lower :: "char \<Rightarrow> char" where
  "ascii_lower c =
     (let n = (of_char c :: nat) in if 65 \<le> n \<and> n \<le> 90 then char_of (n + 32) else c)"

definition lower :: "string \<Rightarrow> string" where
  "lower s = map ascii_lower s"

type_synonym integrator =
  "system_state \<Rightarrow> real \<Rightarrow> real \<Rightarrow> acceleration_func \<Rightarrow> config option \<Rightarrow> trajectory prog"

definition integrators :: "(string \<times> integrator) list" where
  "integrators = [(''leapfrog'', leapfrog), (''verlet'', leapfrog), (''rk4'', rk4)]"

definition unknown_method :: "string \<Rightarrow> py_error" where
  "unknown_method method = ValueError (''Unknown integration method '' @ [CHR 0x27] @ method @ [CHR 0x27] @ ''.'')"

definition integrate ::
  "system_state \<Rightarrow> real \<Rightarrow> real \<Rightarrow> string \<Rightarrow> acceleration_func \<Rightarrow> config option
     \<Rightarrow> trajectory prog" where
  "integrate state duration dt method acceleration_fn precession_config =
     (case map_of integrators (lower method) of
        None \<Rightarrow> raises (unknown_method method)
      | Some integrator \<Rightarrow>
          seq (state_copy state) (\<lambda>copied.
          integrator copied duration dt acceleration_fn precession_config))"


section \<open>Event detection (core/events.py)\<close>

record orbital_metrics =
  moon_orbit_count :: nat
  mean_orbits_between_alignments :: "real option"
  alignment_times :: "real list"
  pericentre_times :: "real list"

text \<open>
  \<open>np.linalg.norm(moon_positions - planet_positions, axis=1)\<close>: the difference of the two
  series, row by row under broadcasting, and the length of each row of the difference.
\<close>

definition radial_distances :: "vec2 list \<Rightarrow> vec2 list \<Rightarrow> py_error + real list" where
  "radial_distances moon_positions planet_positions =
     (case broadcast_rows moon_positions planet_positions of
        Inl e \<Rightarrow> Inl e
      | Inr rows \<Rightarrow> Inr (map (\<lambda>(m, p). linalg_norm (vsub m p)) rows))"

text \<open>The loop \<open>for i in range(1, len(radial_distances) - 1)\<close>, over the list of its indices.\<close>

fun pericentre_loop :: "real list \<Rightarrow> real list \<Rightarrow> nat list \<Rightarrow> real list \<Rightarrow> py_error + real list" where
  "pericentre_loop tms rd [] acc = Inr acc"
| "pericentre_loop tms rd (i # is) acc =
     (if rd ! i < rd ! (i - 1) \<and> rd ! i < rd ! (i + 1)
      then (case nth_err tms i of
              Inl e \<Rightarrow> Inl e
            | Inr t \<Rightarrow> pericentre_loop tms rd is (acc @ [t]))
      else pericentre_loop tms rd is acc)"

definition detect_pericentre_passages ::
  "real list \<Rightarrow> vec2 list \<Rightarrow> vec2 list \<Rightarrow> py_error + real list" where
  "detect_pericentre_passages tms moon_positions planet_positions =
     (case radial_distances moon_positions planet_positions of
        Inl e \<Rightarrow> Inl e
      | Inr rd \<Rightarrow> pericentre_loop tms rd [1 ..< length rd - 1] [])"

definition angle_threshold_default :: real where
  \<comment> \<open>\<open>np.deg2rad(1.5)\<close>\<close>
  "angle_threshold_default = 1.5 * pi / 180"

definition clip :: "real \<Rightarrow> real \<Rightarrow> real \<Rightarrow> real" where
  "clip x lo hi = min (max x lo) hi"

fun alignment_loop ::
  "real list \<Rightarrow> vec2 list \<Rightarrow> vec2 list \<Rightarrow> vec2 list \<Rightarrow> real \<Rightarrow> nat list \<Rightarrow> real list
     \<Rightarrow> py_error + real list" where
  "alignment_loop tms star planet moon thr [] acc = Inr acc"
| "alignment_loop tms star planet moon thr (idx # rest) acc =
     (case nth_err planet idx of Inl e \<Rightarrow> Inl e | Inr p \<Rightarrow>
     (case nth_err star idx of Inl e \<Rightarrow> Inl e | Inr s \<Rightarrow>
     (case nth_err moon idx of Inl e \<Rightarrow> Inl e | Inr m \<Rightarrow>
        (let sp_vector = vsub p s;
             pm_vector = vsub m p;
             sp_norm = linalg_norm sp_vector;
             pm_norm = linalg_norm pm_vector
         in if sp_norm = 0 \<or> pm_norm = 0
            then alignment_loop tms star planet moon thr rest acc
            else (let cos_angle = clip (vdot sp_vector pm_vector / (sp_norm * pm_norm)) (- 1) 1;
                      angle = arccos cos_angle
                  in if angle \<le> thr
                     then alignment_loop tms star planet moon thr rest (acc @ [tms ! idx])
                     else alignment_loop tms star planet moon thr rest acc)))))"

definition detect_alignments ::
  "real list \<Rightarrow> vec2 list \<Rightarrow> vec2 list \<Rightarrow> vec2 list \<Rightarrow> real \<Rightarrow> py_error + real list" where
  "detect_alignments tms star_positions planet_positions moon_positions angle_threshold =
     alignment_loop tms star_positions planet_positions moon_positions angle_threshold
       [0 ..< length tms] []"

text \<open>
  \<open>np.searchsorted(a, v)\<close> with the default \<open>side='left'\<close> is a binary search: it keeps
  a window \<open>[lo, hi)\<close> and moves \<open>lo\<close> past the middle element when that element is
  smaller than \<open>v\<close>.
\<close>

function bisect_left :: "real list \<Rightarrow> real \<Rightarrow> nat \<Rightarrow> nat \<Rightarrow> nat" where
  "bisect_left a v lo hi =
     (if lo < hi
      then (let mid = lo + (hi - lo) div 2
            in if a ! mid < v then bisect_left a v (mid + 1) hi
               else bisect_left a v lo mid)
      else lo)"
  by pat_completeness auto
termination
  by (relation "measure (\<lambda>(a, v, lo, hi). hi - lo)") auto

declare bisect_left.simps [simp del]

definition searchsorted :: "real list \<Rightarrow> real \<Rightarrow> nat" where
  "searchsorted a v = bisect_left a v 0 (length a)"

text \<open>
  The loop \<open>for next_alignment_time in alignments[1:]\<close>. The counts are NumPy integers,
  their difference may be negative, hence \<open>int\<close> and the \<open>max\<close> with 0. The index into
  \<open>times\<close> that the source also looks up is never read and is left out.
\<close>

fun orbits_between_loop :: "real list \<Rightarrow> nat \<Rightarrow> real list \<Rightarrow> int list \<Rightarrow> int list" where
  "orbits_between_loop peri last_pericentre_count [] moon_orbits_between = moon_orbits_between"
| "orbits_between_loop peri last_pericentre_count (next_alignment_time # rest) moon_orbits_between =
     (let next_pericentre_count = searchsorted peri next_alignment_time
      in orbits_between_loop peri next_pericentre_count rest
           (moon_orbits_between @ [max 0 (int next_pericentre_count - int last_pericentre_count)]))"

definition np_mean :: "int list \<Rightarrow> real" where
  "np_mean xs = real_of_int (sum_list xs) / real (length xs)"

text \<open>Lines 67 to 88 of \<open>summarise_metrics\<close>: the summary of the two detected lists.\<close>

definition summarise_detected :: "real list \<Rightarrow> real list \<Rightarrow> orbital_metrics" where
  "summarise_detected peri alignments =
     (let orbit_count = length peri;
          mean_orbits =
            (if length alignments \<ge> 2 \<and> orbit_count > 0
             then (let last_alignment_time = hd alignments;
                       last_pericentre_count = searchsorted peri last_alignment_time;
                       moon_orbits_between =
                         orbits_between_loop peri last_pericentre_count (tl alignments) []
                   in if moon_orbits_between \<noteq> [] then Some (np_mean moon_orbits_between)
                      else None)
             else None)
      in \<lparr> moon_orbit_count = orbit_count,
           mean_orbits_between_alignments = mean_orbits,
           alignment_times = alignments,
           pericentre_times = peri \<rparr>)"

definition summarise_metrics ::
  "real list \<Rightarrow> vec2 list \<Rightarrow> vec2 list \<Rightarrow> vec2 list \<Rightarrow> py_error + orbital_metrics" where
  "summarise_metrics tms star_positions planet_positions moon_positions =
     (case detect_pericentre_passages tms moon_positions planet_positions of
        Inl e \<Rightarrow> Inl e
      | Inr peri \<Rightarrow>
          (case detect_alignments tms star_positions planet_positions moon_positions
                  angle_threshold_default of
             Inl e \<Rightarrow> Inl e
           | Inr alignments \<Rightarrow> Inr (summarise_detected peri alignments)))"


subsection \<open>The statistic as the specification words it\<close>

text \<open>
  The specification describes the mean as an average over consecutive pairs of alignment
  timestamps of a count of pericentre timestamps. \<open>spec_mean_orbits\<close> follows these words,
  with the way one interval counts left as a parameter: strictly between the two
  alignments, or from the first alignment (included) up to the second (excluded).
\<close>

definition consecutive_pairs :: "'a list \<Rightarrow> ('a \<times> 'a) list" where
  "consecutive_pairs xs = zip xs (tl xs)"

definition pericentres_strictly_between :: "real \<Rightarrow> real \<Rightarrow> real list \<Rightarrow> nat" where
  "pericentres_strictly_between a b peri = length (filter (\<lambda>t. a < t \<and> t < b) peri)"

definition pericentres_from_until :: "real \<Rightarrow> real \<Rightarrow> real list \<Rightarrow> nat" where
  "pericentres_from_until a b peri = length (filter (\<lambda>t. a \<le> t \<and> t < b) peri)"

definition spec_mean_orbits ::
  "(real \<Rightarrow> real \<Rightarrow> real list \<Rightarrow> nat) \<Rightarrow> real list \<Rightarrow> real list \<Rightarrow> real option" where
  "spec_mean_orbits count peri alignments =
     (if length alignments \<ge> 2 \<and> peri \<noteq> []
      then Some (real (sum_list (map (\<lambda>(a, b). count a b peri) (consecutive_pairs alignments)))
                 / real (length (consecutive_pairs alignments)))
      else None)"


subsection \<open>The potential energy of one pair\<close>

definition pair_energy :: "vec2 list \<Rightarrow> real list \<Rightarrow> nat \<Rightarrow> nat \<Rightarrow> real" where
  "pair_energy positions masses i j =
     gravitational_constant * masses ! i * masses ! j
       / linalg_norm (vsub (positions ! i) (positions ! j))"


subsection \<open>The leapfrog step as the specification words it\<close>

text \<open>
  The two update formulas of the specification, for whole snapshots:
  \<open>position[k] = position[k-1] + velocity[k-1]*dt + 0.5*a[k-1]*dt^2\<close> and
  \<open>velocity[k] = velocity[k-1] + 0.5*(a[k-1] + a[k])*dt\<close>. And the state that an
  acceleration function is shown when the bodies of \<open>sys\<close> have been given the positions
  \<open>ps\<close> and the velocities \<open>vs\<close>.
\<close>

definition leapfrog_position :: "real \<Rightarrow> vec2 list \<Rightarrow> vec2 list \<Rightarrow> vec2 list \<Rightarrow> vec2 list" where
  "leapfrog_position dt p v a = map2 vadd (map2 vadd p (scale dt v)) (scale (0.5 * dt\<^sup>2) a)"

definition leapfrog_velocity :: "real \<Rightarrow> vec2 list \<Rightarrow> vec2 list \<Rightarrow> vec2 list \<Rightarrow> vec2 list" where
  "leapfrog_velocity dt v a a' = map2 vadd v (scale (0.5 * dt) (map2 vadd a a'))"

definition with_arrays :: "system_view \<Rightarrow> vec2 list \<Rightarrow> vec2 list \<Rightarrow> system_view" where
  "with_arrays sys ps vs =
     map (\<lambda>(b, p, v). \<lparr> name = name b, mass = mass b, position = p, velocity = v,
                         color = color b \<rparr>)
       (zip sys (zip ps vs))"

definition addresses :: "system_state \<Rightarrow> addr list" where
  \<comment> \<open>the arrays of a state, in the order of its bodies\<close>
  "addresses s = concat (map (\<lambda>b. [position b, velocity b]) s)"


subsection \<open>Cells that a program leaves alone\<close>

text \<open>
  \<open>preserves_below n m\<close>: run in a world whose heap has at least \<open>n\<close> cells, the program
  \<open>m\<close> keeps them and does not change their contents.
\<close>

definition preserves_below :: "nat \<Rightarrow> 'a prog \<Rightarrow> bool" where
  "preserves_below n m \<longleftrightarrow>
     (\<forall>w. n \<le> length (heap w) \<longrightarrow>
          n \<le> length (heap (snd (m w))) \<and> take n (heap (snd (m w))) = take n (heap w))"


section \<open>Properties of the event metrics\<close>

subsection \<open>Ordered search\<close>

lemma filter_split_at:
  assumes "lo \<le> length a" "\<forall>i<lo. P (a ! i)" "\<forall>i. lo \<le> i \<and> i < length a \<longrightarrow> \<not> P (a ! i)"
  shows "length (filter P a) = lo"
proof -
  have a: "a = take lo a @ drop lo a" by simp
  have t: "filter P (take lo a) = take lo a"
    using assms by (auto simp: filter_id_conv in_set_conv_nth)
  have d: "filter P (drop lo a) = []"
    using assms by (auto simp: filter_empty_conv in_set_conv_nth)
  have "filter P a = filter P (take lo a) @ filter P (drop lo a)"
    by (metis a filter_append)
  then show ?thesis using t d assms(1) by simp
qed

text \<open>
  On a sorted array the binary search returns the number of elements smaller than the
  key. The window invariant: everything left of \<open>lo\<close> is smaller than \<open>v\<close>, nothing from
  \<open>hi\<close> on is.
\<close>

lemma bisect_left_count:
  "sorted a \<Longrightarrow> lo \<le> hi \<Longrightarrow> hi \<le> length a \<Longrightarrow> \<forall>i<lo. a ! i < v
     \<Longrightarrow> \<forall>i. hi \<le> i \<and> i < length a \<longrightarrow> v \<le> a ! i
     \<Longrightarrow> bisect_left a v lo hi = length (filter (\<lambda>t. t < v) a)"
proof (induction a v lo hi rule: bisect_left.induct)
  case (1 a v lo hi)
  show ?case
  proof (cases "lo < hi")
    case False
    with 1 have "lo = hi" by simp
    then have "length (filter (\<lambda>t. t < v) a) = lo"
      using 1(4,5,6,7) by (intro filter_split_at) (auto simp: not_less)
    then show ?thesis using False by (simp add: bisect_left.simps)
  next
    case True
    define mid where "mid = lo + (hi - lo) div 2"
    have m: "lo \<le> mid" "mid < hi" using True by (auto simp: mid_def)
    show ?thesis
    proof (cases "a ! mid < v")
      case lt: True
      have "\<forall>i<mid + 1. a ! i < v"
      proof (intro allI impI)
        fix i assume "i < mid + 1"
        then have "a ! i \<le> a ! mid" using 1(3,5) m by (auto intro!: sorted_nth_mono)
        then show "a ! i < v" using lt by simp
      qed
      then have "bisect_left a v (mid + 1) hi = length (filter (\<lambda>t. t < v) a)"
        using 1(1)[OF True mid_def lt] 1(3,5,7) m by simp
      then show ?thesis using True lt by (subst bisect_left.simps) (simp add: mid_def Let_def)
    next
      case ge: False
      have "\<forall>i. mid \<le> i \<and> i < length a \<longrightarrow> v \<le> a ! i"
      proof (intro allI impI)
        fix i assume "mid \<le> i \<and> i < length a"
        then have "a ! mid \<le> a ! i" using 1(3) by (auto intro!: sorted_nth_mono)
        then show "v \<le> a ! i" using ge by simp
      qed
      then have "bisect_left a v lo mid = length (filter (\<lambda>t. t < v) a)"
        using 1(2)[OF True mid_def ge] 1(3,5,6) m by simp
      then show ?thesis using True ge by (subst bisect_left.simps) (simp add: mid_def Let_def)
    qed
  qed
qed

lemma searchsorted_count:
  "sorted a \<Longrightarrow> searchsorted a v = length (filter (\<lambda>t. t < v) a)"
  unfolding searchsorted_def by (rule bisect_left_count) auto

lemma count_interval:
  fixes a b :: real
  shows "a \<le> b \<Longrightarrow>
     int (length (filter (\<lambda>t. t < b) xs)) - int (length (filter (\<lambda>t. t < a) xs))
       = int (length (filter (\<lambda>t. a \<le> t \<and> t < b) xs))"
  by (induction xs) auto

lemma orbits_between_loop_eq:
  "orbits_between_loop peri (searchsorted peri a0) rest acc
     = acc @ map (\<lambda>(a, b). max 0 (int (searchsorted peri b) - int (searchsorted peri a)))
               (zip (a0 # rest) rest)"
  by (induction rest arbitrary: a0 acc) (auto simp: Let_def)


subsection \<open>The loop over consecutive alignments\<close>

lemma sorted_zip_le:
  "sorted (a0 # rest) \<Longrightarrow> (a, b) \<in> set (zip (a0 # rest) rest) \<Longrightarrow> a \<le> (b::real)"
  by (induction rest arbitrary: a0) auto

lemma orbits_between_sorted:
  assumes "sorted peri" "sorted (a0 # rest)"
  shows "orbits_between_loop peri (searchsorted peri a0) rest []
     = map (\<lambda>(a, b). int (pericentres_from_until a b peri)) (zip (a0 # rest) rest)"
proof -
  have "max 0 (int (searchsorted peri b) - int (searchsorted peri a))
          = int (pericentres_from_until a b peri)"
    if "(a, b) \<in> set (zip (a0 # rest) rest)" for a b
  proof -
    have "a \<le> b" using sorted_zip_le[OF assms(2) that] .
    then show ?thesis
      using count_interval[of a b peri]
      by (simp add: searchsorted_count[OF assms(1)] pericentres_from_until_def)
  qed
  then show ?thesis
    unfolding orbits_between_loop_eq by (auto intro!: map_cong)
qed

lemma sum_list_int_map:
  "sum_list (map (\<lambda>x. int (f x)) xs) = int (sum_list (map f xs))"
  by (induction xs) auto

lemma summarise_detected_mean:
  assumes "sorted peri" "sorted alignments"
  shows "mean_orbits_between_alignments (summarise_detected peri alignments)
     = spec_mean_orbits pericentres_from_until peri alignments"
proof (cases "length alignments \<ge> 2 \<and> peri \<noteq> []")
  case False
  then show ?thesis by (auto simp: summarise_detected_def spec_mean_orbits_def Let_def)
next
  case True
  then obtain a0 a1 rest where al: "alignments = a0 # a1 # rest"
    by (cases alignments; cases "tl alignments") auto
  have loop: "orbits_between_loop peri (searchsorted peri a0) (a1 # rest) []
     = map (\<lambda>(a, b). int (pericentres_from_until a b peri)) (zip (a0 # a1 # rest) (a1 # rest))"
    using orbits_between_sorted[OF assms(1), of a0 "a1 # rest"] assms(2) al by simp
  have ne: "orbits_between_loop peri (searchsorted peri a0) (a1 # rest) [] \<noteq> []"
    unfolding loop by simp
  have "mean_orbits_between_alignments (summarise_detected peri alignments)
      = Some (np_mean (orbits_between_loop peri (searchsorted peri a0) (a1 # rest) []))"
    using True ne unfolding summarise_detected_def al by (simp add: Let_def)
  also have "\<dots> = spec_mean_orbits pericentres_from_until peri alignments"
    using True unfolding loop al spec_mean_orbits_def consecutive_pairs_def np_mean_def
    by (simp add: sum_list_int_map split_def comp_def)
  finally show ?thesis .
qed


subsection \<open>Two concrete runs\<close>

text \<open>
  A run of nine samples whose detected pericentres are 1.5, 2.5, 3.5, 4.5 and whose
  detected alignments are 1, 3, 5; and a run of three samples in which the sample at
  time 1 is both a pericentre and an alignment.
\<close>

lemma linalg_norm_x [simp]: "linalg_norm (a, 0) = \<bar>a\<bar>"
  by (simp add: linalg_norm_def sum_sq_def)

lemma linalg_norm_y [simp]: "linalg_norm (0, b) = \<bar>b\<bar>"
  by (simp add: linalg_norm_def sum_sq_def)

lemma upt_0_9: "[0..<9] = [0, 1, 2, 3, 4, 5, 6, 7, 8]"
  by code_simp

lemma upt_1_8: "[1..<8] = [1, 2, 3, 4, 5, 6, 7]"
  by code_simp

lemma upt_0_3: "[0..<3] = [0, 1, 2]"
  by code_simp

lemma two_per_interval_pericentres:
  "detect_pericentre_passages [1, 1.5, 2, 2.5, 3, 3.5, 4, 4.5, 5]
     [(12,0),(10,1),(10,2),(10,1),(12,0),(10,1),(10,2),(10,1),(12,0)]
     [(10,0),(10,0),(10,0),(10,0),(10,0),(10,0),(10,0),(10,0),(10,0)]
   = Inr [1.5, 2.5, 3.5, 4.5]"
  by (simp add: detect_pericentre_passages_def radial_distances_def broadcast_rows_def vsub_def upt_1_8 nth_err_def)

lemma two_per_interval_alignments:
  "detect_alignments [1, 1.5, 2, 2.5, 3, 3.5, 4, 4.5, 5]
     [(0,0),(0,0),(0,0),(0,0),(0,0),(0,0),(0,0),(0,0),(0,0)]
     [(10,0),(10,0),(10,0),(10,0),(10,0),(10,0),(10,0),(10,0),(10,0)]
     [(12,0),(10,1),(10,2),(10,1),(12,0),(10,1),(10,2),(10,1),(12,0)]
     angle_threshold_default
   = Inr [1, 3, 5]"
  by (simp add: detect_alignments_def upt_0_9 nth_err_def vsub_def vdot_def clip_def
       angle_threshold_default_def)

lemma coincident_pericentres:
  "detect_pericentre_passages [0, 1, 2] [(12,0),(11,0),(12,0)] [(10,0),(10,0),(10,0)] = Inr [1]"
  by (simp add: detect_pericentre_passages_def radial_distances_def broadcast_rows_def vsub_def nth_err_def)

lemma coincident_alignments:
  "detect_alignments [0, 1, 2] [(0,0),(0,0),(0,0)] [(10,0),(10,0),(10,0)]
     [(12,0),(11,0),(12,0)] angle_threshold_default = Inr [0, 1, 2]"
  by (simp add: detect_alignments_def upt_0_3 nth_err_def vsub_def vdot_def clip_def
       angle_threshold_default_def)

lemma summarise_detected_two_per_interval:
  "summarise_detected [1.5, 2.5, 3.5, 4.5] [1, 3, 5]
     = \<lparr> moon_orbit_count = 4, mean_orbits_between_alignments = Some 2,
         alignment_times = [1, 3, 5], pericentre_times = [1.5, 2.5, 3.5, 4.5] \<rparr>"
  by (simp add: summarise_detected_def searchsorted_def bisect_left.simps np_mean_def)

subsection \<open>Claims about the metrics\<close>

text \<open>
  Claim C1, as the code has it. Whenever \<open>summarise_metrics\<close> detects the alignment
  timestamps 1, 3, 5 and the pericentre timestamps 1.5, 2.5, 3.5, 4.5, the reported mean
  of orbits between alignments is 2: each of the two intervals holds two pericentres.
  Whenever exactly one alignment is detected, the mean is absent.
\<close>

theorem summarise_metrics_example_mean:
  "(detect_pericentre_passages tms moon planet = Inr [1.5, 2.5, 3.5, 4.5] \<longrightarrow>
    detect_alignments tms star planet moon angle_threshold_default = Inr [1, 3, 5] \<longrightarrow>
      (\<exists>m. summarise_metrics tms star planet moon = Inr m
           \<and> mean_orbits_between_alignments m = Some 2))
   \<and> (detect_pericentre_passages tms moon planet = Inr peri \<longrightarrow>
      detect_alignments tms star planet moon angle_threshold_default = Inr [a] \<longrightarrow>
      (\<exists>m. summarise_metrics tms star planet moon = Inr m
           \<and> mean_orbits_between_alignments m = None))"
proof (intro conjI impI)
  assume p: "detect_pericentre_passages tms moon planet = Inr [1.5, 2.5, 3.5, 4.5]"
    and a: "detect_alignments tms star planet moon angle_threshold_default = Inr [1, 3, 5]"
  have "summarise_metrics tms star planet moon
          = Inr (summarise_detected [1.5, 2.5, 3.5, 4.5] [1, 3, 5])"
    unfolding summarise_metrics_def p a by (simp only: sum.case)
  then show "\<exists>m. summarise_metrics tms star planet moon = Inr m
                \<and> mean_orbits_between_alignments m = Some 2"
    unfolding summarise_detected_two_per_interval by simp
next
  assume p: "detect_pericentre_passages tms moon planet = Inr peri"
    and a: "detect_alignments tms star planet moon angle_threshold_default = Inr [a]"
  show "\<exists>m. summarise_metrics tms star planet moon = Inr m
           \<and> mean_orbits_between_alignments m = None"
    unfolding summarise_metrics_def p a by (simp add: summarise_detected_def)
qed

text \<open>The run of nine samples has these detections, and its mean is 2.\<close>

theorem summarise_metrics_example_mean_witness:
  "(\<exists>m. summarise_metrics [1, 1.5, 2, 2.5, 3, 3.5, 4, 4.5, 5]
          [(0,0),(0,0),(0,0),(0,0),(0,0),(0,0),(0,0),(0,0),(0,0)]
          [(10,0),(10,0),(10,0),(10,0),(10,0),(10,0),(10,0),(10,0),(10,0)]
          [(12,0),(10,1),(10,2),(10,1),(12,0),(10,1),(10,2),(10,1),(12,0)] = Inr m
        \<and> mean_orbits_between_alignments m = Some 2)"
  using summarise_metrics_example_mean
    [of "[1, 1.5, 2, 2.5, 3, 3.5, 4, 4.5, 5]"
        "[(12,0),(10,1),(10,2),(10,1),(12,0),(10,1),(10,2),(10,1),(12,0)]"
        "[(10,0),(10,0),(10,0),(10,0),(10,0),(10,0),(10,0),(10,0),(10,0)]"
        "[(0,0),(0,0),(0,0),(0,0),(0,0),(0,0),(0,0),(0,0),(0,0)]"]
    two_per_interval_pericentres two_per_interval_alignments
  by blast

text \<open>
  The claim's value 1 is not what the code reports: on the run of nine samples the
  summary holds the mean 2.
\<close>

theorem summarise_metrics_example_mean_counterexample:
  "summarise_metrics [1, 1.5, 2, 2.5, 3, 3.5, 4, 4.5, 5]
          [(0,0),(0,0),(0,0),(0,0),(0,0),(0,0),(0,0),(0,0),(0,0)]
          [(10,0),(10,0),(10,0),(10,0),(10,0),(10,0),(10,0),(10,0),(10,0)]
          [(12,0),(10,1),(10,2),(10,1),(12,0),(10,1),(10,2),(10,1),(12,0)]
     = Inr \<lparr> moon_orbit_count = 4, mean_orbits_between_alignments = Some 2,
             alignment_times = [1, 3, 5], pericentre_times = [1.5, 2.5, 3.5, 4.5] \<rparr>
   \<and> mean_orbits_between_alignments (summarise_detected [1.5, 2.5, 3.5, 4.5] [1, 3, 5]) \<noteq> Some 1"
proof -
  have "summarise_metrics [1, 1.5, 2, 2.5, 3, 3.5, 4, 4.5, 5]
          [(0,0),(0,0),(0,0),(0,0),(0,0),(0,0),(0,0),(0,0),(0,0)]
          [(10,0),(10,0),(10,0),(10,0),(10,0),(10,0),(10,0),(10,0),(10,0)]
          [(12,0),(10,1),(10,2),(10,1),(12,0),(10,1),(10,2),(10,1),(12,0)]
     = Inr (summarise_detected [1.5, 2.5, 3.5, 4.5] [1, 3, 5])"
    unfolding summarise_metrics_def two_per_interval_pericentres two_per_interval_alignments
    by (simp only: sum.case)
  then show ?thesis
    unfolding summarise_detected_two_per_interval by simp
qed

text \<open>
  Claim C2, as the code has it. For sorted detected pericentre and alignment timestamps,
  the mean is the average, over the consecutive pairs \<open>(a, b)\<close> of alignment timestamps,
  of the number of pericentre timestamps \<open>t\<close> with \<open>a \<le> t < b\<close>, when there are at
  least two alignments and at least one pericentre; otherwise, and only then, it is absent.
\<close>

theorem summarise_metrics_mean_orbits:
  assumes "detect_pericentre_passages tms moon planet = Inr peri"
    and "detect_alignments tms star planet moon angle_threshold_default = Inr alignments"
    and "sorted peri" and "sorted alignments"
  shows "\<exists>m. summarise_metrics tms star planet moon = Inr m
           \<and> mean_orbits_between_alignments m
               = spec_mean_orbits pericentres_from_until peri alignments
           \<and> (mean_orbits_between_alignments m = None
                \<longleftrightarrow> \<not> (2 \<le> length alignments \<and> 1 \<le> length peri))"
proof -
  have "summarise_metrics tms star planet moon = Inr (summarise_detected peri alignments)"
    using assms(1,2) by (simp add: summarise_metrics_def)
  moreover have "spec_mean_orbits pericentres_from_until peri alignments = None
      \<longleftrightarrow> \<not> (2 \<le> length alignments \<and> 1 \<le> length peri)"
    by (cases peri) (auto simp: spec_mean_orbits_def)
  ultimately show ?thesis
    using summarise_detected_mean[OF assms(3,4)] by simp
qed

text \<open>The run of three samples: the counts of its two intervals are 0 and 1.\<close>

theorem summarise_metrics_mean_orbits_witness:
  "\<exists>m. summarise_metrics [0, 1, 2] [(0,0),(0,0),(0,0)] [(10,0),(10,0),(10,0)]
          [(12,0),(11,0),(12,0)] = Inr m
       \<and> mean_orbits_between_alignments m = Some (1 / 2)"
  using summarise_metrics_mean_orbits [OF coincident_pericentres coincident_alignments]
  by (fastforce simp: spec_mean_orbits_def consecutive_pairs_def pericentres_from_until_def)

text \<open>
  Counting strictly between both endpoints gives another value: in the run of three
  samples the pericentre at time 1 coincides with an alignment, the code counts it in the
  interval that starts there and reports the mean 1/2, the strict count gives 0.
\<close>

theorem summarise_metrics_mean_orbits_counterexample:
  "summarise_metrics [0, 1, 2] [(0,0),(0,0),(0,0)] [(10,0),(10,0),(10,0)]
          [(12,0),(11,0),(12,0)]
     = Inr \<lparr> moon_orbit_count = 1, mean_orbits_between_alignments = Some (1 / 2),
             alignment_times = [0, 1, 2], pericentre_times = [1] \<rparr>
   \<and> sorted [1::real] \<and> sorted [0, 1, 2::real]
   \<and> spec_mean_orbits pericentres_strictly_between [1] [0, 1, 2] = Some 0"
  by (simp add: summarise_metrics_def coincident_pericentres coincident_alignments
        summarise_detected_def searchsorted_def bisect_left.simps np_mean_def
        spec_mean_orbits_def consecutive_pairs_def pericentres_strictly_between_def)

section \<open>The table of integrators\<close>

lemma lower_euler: "lower ''euler'' = ''euler''"
  by code_simp

lemma lower_leapfrog: "lower ''leapfrog'' = ''leapfrog''"
  by code_simp

lemma lower_rk4: "lower ''rk4'' = ''rk4''"
  by code_simp

lemma lower_RK4: "lower ''RK4'' = ''rk4''"
  by code_simp

lemma lower_verlet: "lower ''verlet'' = ''verlet''"
  by code_simp

lemma lower_VeRLeT: "lower ''VeRLeT'' = ''verlet''"
  by code_simp

lemma map_of_integrators:
  "map_of integrators n =
     (if n = ''leapfrog'' then Some leapfrog else if n = ''verlet'' then Some leapfrog
      else if n = ''rk4'' then Some rk4 else None)"
  by (simp add: integrators_def)

section \<open>Properties of the physics\<close>

subsection \<open>Pairwise gravity\<close>

lemma vadd_zero [simp]: "vadd (0, 0) v = v" "vadd v (0, 0) = v"
  by (simp_all add: vadd_def)

lemma force_row_zero_separation: "force_row p (m, p) = (0, 0)"
  by (simp add: force_row_def vsub_def sum_sq_def inv_dist_cubed_def smul_def)

lemma vsum_Cons [simp]: "vsum (v # vs) = vadd v (vsum vs)"
  by (simp add: vsum_def)

lemma vsum_Nil [simp]: "vsum [] = (0, 0)"
  by (simp add: vsum_def)

lemma vsum_skip_zero:
  "(\<And>x. x \<in> set xs \<Longrightarrow> \<not> P x \<Longrightarrow> f x = (0, 0)) \<Longrightarrow>
     vsum (map f xs) = vsum (map f (filter P xs))"
  by (induction xs) auto

lemma broadcast_rows_same [simp]:
  "length xs = length ys \<Longrightarrow> broadcast_rows xs ys = Inr (zip xs ys)"
  by (simp add: broadcast_rows_def)

text \<open>
  Claim C8. The row that a body at the position of the attracted body contributes to
  \<open>force\<close> is the zero vector, whatever its mass, the attracted body itself included; the
  call returns a value and raises nothing. So a single body gets the acceleration zero,
  and in general the acceleration of a body is the sum over the bodies at other positions.
\<close>

theorem gravity_zero_separation:
  "force_row p (m, p) = (0, 0)
   \<and> compute_pairwise_gravity [p] [m] = Inr [(0, 0)]
   \<and> (length masses = length positions \<longrightarrow>
        compute_pairwise_gravity positions masses
          = Inr (map (\<lambda>p_i. vsum (map (force_row p_i)
                                   (filter (\<lambda>row. snd row \<noteq> p_i) (zip masses positions))))
                   positions))"
proof (intro conjI impI)
  show "force_row p (m, p) = (0, 0)" by (rule force_row_zero_separation)
  show "compute_pairwise_gravity [p] [m] = Inr [(0, 0)]"
    by (simp add: compute_pairwise_gravity_def force_row_zero_separation)
next
  assume len: "length masses = length positions"
  have "vsum (map (force_row p_i) (zip masses positions))
      = vsum (map (force_row p_i) (filter (\<lambda>row. snd row \<noteq> p_i) (zip masses positions)))"
    for p_i
    by (rule vsum_skip_zero) (auto simp: force_row_zero_separation)
  then show "compute_pairwise_gravity positions masses
          = Inr (map (\<lambda>p_i. vsum (map (force_row p_i)
                                   (filter (\<lambda>row. snd row \<noteq> p_i) (zip masses positions))))
                   positions)"
    using len by (simp add: compute_pairwise_gravity_def)
qed

text \<open>Two bodies at the same point do not accelerate each other.\<close>

theorem gravity_zero_separation_witness:
  "compute_pairwise_gravity [(1, 2), (1, 2)] [3, 4] = Inr [(0, 0), (0, 0)]"
  using gravity_zero_separation [of _ _ "[3, 4]" "[(1, 2), (1, 2)]"]
  by simp

subsection \<open>The precession term\<close>

lemma first_index_None: "first_index n sys i = None \<longleftrightarrow> n \<notin> name ` set sys"
  by (induction sys arbitrary: i) auto

lemma first_index_Some:
  "first_index n sys i = Some k \<Longrightarrow> i \<le> k \<and> k - i < length sys \<and> name (sys ! (k - i)) = n"
proof (induction sys arbitrary: i)
  case Nil
  then show ?case by simp
next
  case (Cons b bs)
  show ?case
  proof (cases "name b = n")
    case True
    with Cons.prems show ?thesis by simp
  next
    case False
    with Cons.prems have "first_index n bs (i + 1) = Some k" by simp
    from Cons.IH[OF this] have "i + 1 \<le> k" "k - (i + 1) < length bs"
      "name (bs ! (k - (i + 1))) = n" by auto
    moreover from \<open>i + 1 \<le> k\<close> have "k - i = Suc (k - (i + 1))" by simp
    ultimately show ?thesis by simp
  qed
qed

lemma apply_precession_error_iff:
  "apply_precession system accelerations cfg = Inl precession_error
     \<longleftrightarrow> dict_get cfg ''moon_precession_strength'' 0 \<noteq> 0
         \<and> \<not> (''Planet'' \<in> name ` set system \<and> ''Moon'' \<in> name ` set system)"
proof -
  have present: "n \<in> name ` set system \<longleftrightarrow> (\<exists>k. first_index n system 0 = Some k)" for n
    using first_index_None[of n system 0] by (cases "first_index n system 0") auto
  show ?thesis
    unfolding present
    by (auto simp: apply_precession_def Let_def nth_err_def precession_error_def
             split: option.splits if_splits)
qed

lemma apply_precession_zero_radius:
  assumes "first_index ''Planet'' system 0 = Some i" "first_index ''Moon'' system 0 = Some j"
    and "position (system ! j) = position (system ! i)"
  shows "apply_precession system accelerations cfg = Inr accelerations"
  using assms
  by (simp add: apply_precession_def Let_def vsub_def linalg_norm_def sum_sq_def)

lemma compute_pairwise_gravity_state:
  "system \<noteq> [] \<Longrightarrow> \<exists>acc. compute_pairwise_gravity (map position system) (state_masses system) = Inr acc
        \<and> length acc = length system"
  by (simp add: compute_pairwise_gravity_def state_masses_def)

lemma compute_accelerations_gravity:
  "system \<noteq> [] \<Longrightarrow> compute_accelerations system None
      = compute_pairwise_gravity (map position system) (state_masses system)"
  using compute_pairwise_gravity_state[of system]
  by (auto simp: compute_accelerations_def state_positions_def)

lemma compute_accelerations_config:
  "system \<noteq> [] \<Longrightarrow> cfg \<noteq> [] \<Longrightarrow>
     \<exists>acc. compute_accelerations system None = Inr acc \<and> length acc = length system
        \<and> compute_accelerations system (Some cfg) = apply_precession system acc cfg"
  using compute_pairwise_gravity_state[of system]
  by (auto simp: compute_accelerations_def state_positions_def)

text \<open>
  Claim C6. \<open>apply_precession\<close> raises the configuration error exactly when the configured
  strength is not zero and the system lacks a body named Planet or a body named Moon.
  When planet and moon are at distance zero it returns the accelerations as they were.
  \<open>compute_accelerations\<close>, given a system with at least one body and a configuration that
  is not empty, raises that error in exactly the same case, and at distance zero returns
  what it returns without a configuration: the accelerations of gravity alone.
\<close>

theorem precession_configuration_error:
  "(apply_precession system accelerations cfg = Inl precession_error
      \<longleftrightarrow> dict_get cfg ''moon_precession_strength'' 0 \<noteq> 0
          \<and> \<not> (''Planet'' \<in> name ` set system \<and> ''Moon'' \<in> name ` set system))
   \<and> (first_index ''Planet'' system 0 = Some i \<longrightarrow> first_index ''Moon'' system 0 = Some j \<longrightarrow>
        linalg_norm (vsub (position (system ! j)) (position (system ! i))) = 0 \<longrightarrow>
        apply_precession system accelerations cfg = Inr accelerations)
   \<and> (system \<noteq> [] \<longrightarrow> cfg \<noteq> [] \<longrightarrow>
        (compute_accelerations system (Some cfg) = Inl precession_error
           \<longleftrightarrow> dict_get cfg ''moon_precession_strength'' 0 \<noteq> 0
               \<and> \<not> (''Planet'' \<in> name ` set system \<and> ''Moon'' \<in> name ` set system))
        \<and> (first_index ''Planet'' system 0 = Some i \<longrightarrow> first_index ''Moon'' system 0 = Some j \<longrightarrow>
             linalg_norm (vsub (position (system ! j)) (position (system ! i))) = 0 \<longrightarrow>
             compute_accelerations system (Some cfg) = compute_accelerations system None
             \<and> (\<exists>acc. compute_accelerations system (Some cfg) = Inr acc)))"
proof (intro conjI impI)
  show "apply_precession system accelerations cfg = Inl precession_error
      \<longleftrightarrow> dict_get cfg ''moon_precession_strength'' 0 \<noteq> 0
          \<and> \<not> (''Planet'' \<in> name ` set system \<and> ''Moon'' \<in> name ` set system)"
    by (rule apply_precession_error_iff)
next
  assume "first_index ''Planet'' system 0 = Some i" "first_index ''Moon'' system 0 = Some j"
    "linalg_norm (vsub (position (system ! j)) (position (system ! i))) = 0"
  then show "apply_precession system accelerations cfg = Inr accelerations"
    by (simp add: apply_precession_def Let_def)
next
  assume ne: "system \<noteq> []" "cfg \<noteq> []"
  from compute_accelerations_config[OF ne] obtain acc where
    acc: "compute_accelerations system None = Inr acc" "length acc = length system"
      "compute_accelerations system (Some cfg) = apply_precession system acc cfg"
    by blast
  show "compute_accelerations system (Some cfg) = Inl precession_error
           \<longleftrightarrow> dict_get cfg ''moon_precession_strength'' 0 \<noteq> 0
               \<and> \<not> (''Planet'' \<in> name ` set system \<and> ''Moon'' \<in> name ` set system)"
    unfolding acc(3) by (rule apply_precession_error_iff)
  assume z: "first_index ''Planet'' system 0 = Some i" "first_index ''Moon'' system 0 = Some j"
    "linalg_norm (vsub (position (system ! j)) (position (system ! i))) = 0"
  then have "apply_precession system acc cfg = Inr acc"
    by (simp add: apply_precession_def Let_def)
  then show "compute_accelerations system (Some cfg) = compute_accelerations system None"
    "\<exists>acc. compute_accelerations system (Some cfg) = Inr acc"
    using acc by simp_all
qed


text \<open>
  A lone star with a strength of 1/2 raises the error; a planet and a moon at the same
  point get the accelerations of gravity alone.
\<close>

theorem precession_configuration_error_witness:
  "compute_accelerations
     [\<lparr>name = ''Star'', mass = 1, position = (0, 0), velocity = (0, 0), color = ''orange''\<rparr>]
     (Some [(''moon_precession_strength'', 1 / 2)]) = Inl precession_error
   \<and> compute_accelerations
     [\<lparr>name = ''Planet'', mass = 1, position = (1, 0), velocity = (0, 0), color = ''blue''\<rparr>,
      \<lparr>name = ''Moon'', mass = 1, position = (1, 0), velocity = (0, 1), color = ''grey''\<rparr>]
     (Some [(''moon_precession_strength'', 1 / 2)])
     = compute_accelerations
     [\<lparr>name = ''Planet'', mass = 1, position = (1, 0), velocity = (0, 0), color = ''blue''\<rparr>,
      \<lparr>name = ''Moon'', mass = 1, position = (1, 0), velocity = (0, 1), color = ''grey''\<rparr>]
     None"
  using precession_configuration_error
     [of "[\<lparr>name = ''Star'', mass = 1, position = (0, 0), velocity = (0, 0), color = ''orange''\<rparr>]"
         _ "[(''moon_precession_strength'', 1 / 2)]"]
    precession_configuration_error
     [of "[\<lparr>name = ''Planet'', mass = 1, position = (1, 0), velocity = (0, 0), color = ''blue''\<rparr>,
           \<lparr>name = ''Moon'', mass = 1, position = (1, 0), velocity = (0, 1), color = ''grey''\<rparr>]"
         _ "[(''moon_precession_strength'', 1 / 2)]" 0 1]
  by (simp add: dict_get_def vsub_def linalg_norm_def sum_sq_def)

subsection \<open>Energy\<close>

lemma linalg_norm_vsub_zero: "linalg_norm (vsub a b) = 0 \<longleftrightarrow> a = b"
  by (cases a; cases b) (simp add: linalg_norm_def sum_sq_def vsub_def sum_power2_eq_zero_iff)

lemma linalg_norm_power2: "(linalg_norm v)\<^sup>2 = sum_sq v"
  by (simp add: linalg_norm_def sum_sq_def)

lemma potential_inner_sum:
  assumes "i < length positions"
    and "\<forall>j \<in> set js. j < length positions \<and> positions ! i \<noteq> positions ! j"
  shows "potential_inner positions masses i js (Some p)
     = Inr (Some (p - sum_list (map (pair_energy positions masses i) js)))"
  using assms(2)
proof (induction js arbitrary: p)
  case Nil
  then show ?case by simp
next
  case (Cons j js)
  then have j: "j < length positions" "positions ! i \<noteq> positions ! j" by auto
  have "potential_inner positions masses i (j # js) (Some p)
      = potential_inner positions masses i js (Some (p - pair_energy positions masses i j))"
    using assms(1) j
    by (simp add: nth_err_def Let_def float_div_def float_sub_def linalg_norm_vsub_zero
          pair_energy_def)
  also have "\<dots> = Inr (Some (p - pair_energy positions masses i j
                          - sum_list (map (pair_energy positions masses i) js)))"
    using Cons by simp
  finally show ?case by (simp add: algebra_simps)
qed

lemma potential_outer_sum:
  assumes "n \<le> length positions" "distinct positions"
    and "\<forall>i \<in> set is. i < n"
  shows "potential_outer positions masses n is (Some p)
     = Inr (Some (p - sum_list (map (\<lambda>i. sum_list (map (pair_energy positions masses i) [i + 1 ..< n])) is)))"
  using assms(3)
proof (induction "is" arbitrary: p)
  case Nil
  then show ?case by simp
next
  case (Cons i "is")
  then have i: "i < n" by simp
  have "\<forall>j \<in> set [i + 1 ..< n]. j < length positions \<and> positions ! i \<noteq> positions ! j"
    using assms(1,2) i by (auto simp: nth_eq_iff_index_eq)
  then have "potential_inner positions masses i [i + 1 ..< n] (Some p)
      = Inr (Some (p - sum_list (map (pair_energy positions masses i) [i + 1 ..< n])))"
    using potential_inner_sum[of i positions "[i + 1 ..< n]" masses p] i assms(1) by simp
  then show ?case using Cons by (simp add: algebra_simps)
qed

lemma sum_list_upt: "sum_list (map f [a ..< b]) = (\<Sum>k \<in> {a ..< b}. (f k :: real))"
  by (simp add: interv_sum_list_conv_sum_set_nat)

lemma kinetic_sum:
  assumes "length velocities = length masses"
  shows "sum_list (map (\<lambda>(m, v). m * (fst v)\<^sup>2 + m * (snd v)\<^sup>2) (zip masses velocities))
     = (\<Sum>i < length masses. masses ! i * (linalg_norm (velocities ! i))\<^sup>2)"
proof -
  have "sum_list (map (\<lambda>(m, v). m * (fst v)\<^sup>2 + m * (snd v)\<^sup>2) (zip masses velocities))
      = (\<Sum>i = 0 ..< length masses.
           map (\<lambda>(m, v). m * (fst v)\<^sup>2 + m * (snd v)\<^sup>2) (zip masses velocities) ! i)"
    using assms by (simp add: sum_list_sum_nth)
  also have "\<dots> = (\<Sum>i = 0 ..< length masses. masses ! i * (linalg_norm (velocities ! i))\<^sup>2)"
    using assms by (intro sum.cong) (auto simp: linalg_norm_power2 sum_sq_def algebra_simps)
  finally show ?thesis by (simp add: atLeast0LessThan)
qed

text \<open>
  Claim C9. For a snapshot of bodies at pairwise distinct positions (one position, one
  velocity and one mass per body), \<open>compute_total_energy\<close> returns the kinetic energy
  \<open>1/2 \<Sum> m\<^sub>i |v\<^sub>i|\<^sup>2\<close> and the potential energy \<open>- \<Sum>\<^sub>i\<^sub><\<^sub>j G m\<^sub>i m\<^sub>j / |r\<^sub>i - r\<^sub>j|\<close>, with
  the constant \<open>G\<close> that scales the rows of \<open>force\<close> in the acceleration model.
\<close>

theorem total_energy_formula:
  assumes "length positions = length masses" and "length velocities = length masses"
    and "distinct positions"
  shows "compute_total_energy positions velocities masses
     = Inr (1 / 2 * (\<Sum>i < length masses. masses ! i * (linalg_norm (velocities ! i))\<^sup>2),
            Some (- (\<Sum>i < length masses. \<Sum>j \<in> {i <..< length masses}.
                       gravitational_constant * masses ! i * masses ! j
                         / linalg_norm (vsub (positions ! i) (positions ! j)))))
     \<and> force_row p_i (m_j, p_j)
         = smul (- gravitational_constant)
             (smul (inv_dist_cubed (sum_sq (vsub p_i p_j))) (smul m_j (vsub p_i p_j)))"
proof
  let ?n = "length masses"
  have pot: "potential_outer positions masses ?n [0 ..< ?n] (Some 0)
      = Inr (Some (0 - sum_list (map (\<lambda>i. sum_list (map (pair_energy positions masses i) [i + 1 ..< ?n])) [0 ..< ?n])))"
    using assms by (intro potential_outer_sum) auto
  have "sum_list (map (\<lambda>i. sum_list (map (pair_energy positions masses i) [i + 1 ..< ?n])) [0 ..< ?n])
      = (\<Sum>i < ?n. \<Sum>j \<in> {i <..< ?n}. pair_energy positions masses i j)"
    by (simp add: sum_list_upt atLeast0LessThan atLeastSucLessThan_greaterThanLessThan)
  with pot have pot': "potential_outer positions masses ?n [0 ..< ?n] (Some 0)
      = Inr (Some (- (\<Sum>i < ?n. \<Sum>j \<in> {i <..< ?n}. pair_energy positions masses i j)))"
    by simp
  show "compute_total_energy positions velocities masses
     = Inr (1 / 2 * (\<Sum>i < length masses. masses ! i * (linalg_norm (velocities ! i))\<^sup>2),
            Some (- (\<Sum>i < length masses. \<Sum>j \<in> {i <..< length masses}.
                       gravitational_constant * masses ! i * masses ! j
                         / linalg_norm (vsub (positions ! i) (positions ! j)))))"
    using assms(2) pot' kinetic_sum[OF assms(2)]
    by (simp add: compute_total_energy_def Let_def pair_energy_def)
  show "force_row p_i (m_j, p_j)
         = smul (- gravitational_constant)
             (smul (inv_dist_cubed (sum_sq (vsub p_i p_j))) (smul m_j (vsub p_i p_j)))"
    by (simp add: force_row_def Let_def)
qed

lemma sqrt_25: "sqrt 25 = 5"
  using real_sqrt_abs[of 5] by simp

text \<open>Two bodies at distance 5.\<close>

theorem total_energy_formula_witness:
  "compute_total_energy [(0, 0), (3, 4)] [(1, 0), (0, 2)] [2, 3] = Inr (7, Some (- (6 / 5)))"
  using total_energy_formula [of "[(0, 0), (3, 4)]" "[2, 3]" "[(1, 0), (0, 2)]"]
  by (simp add: lessThan_Suc eval_nat_numeral greaterThanLessThan_def linalg_norm_def sum_sq_def
        vsub_def gravitational_constant_def sqrt_25)


section \<open>Properties of the integrators\<close>

subsection \<open>The rounded quotient\<close>

lemma floor_log2:
  assumes "0 < x" "2 powr of_int e \<le> x" "x < 2 powr of_int (e + 1)"
  shows "\<lfloor>log 2 x\<rfloor> = e"
  using assms by (simp add: floor_log_eq_powr_iff)

lemma below_overflow: "\<bar>x\<bar> \<le> 16 \<Longrightarrow> \<not> \<bar>x :: real\<bar> \<ge> 2 ^ 1024"
proof -
  assume "\<bar>x\<bar> \<le> 16"
  moreover have "(16::real) < 2 ^ 5" by simp
  moreover have "(2::real) ^ 5 \<le> 2 ^ 1024" by (rule power_increasing) simp_all
  ultimately show ?thesis by linarith
qed

text \<open>The quotient \<open>1.0 / 1.0\<close> is exact.\<close>

lemma double_round_1: "double_round 1 = Some 1"
proof -
  have p52: "(2::real) ^ 52 = 4503599627370496" by simp
  have "(2::real) powr of_int (max \<lfloor>log 2 \<bar>1::real\<bar>\<rfloor> (- 1022) - 52) = 2 powr (- 52)" by simp
  also have "\<dots> = inverse (2 powr 52)" by (rule powr_minus)
  also have "(2::real) powr 52 = 2 ^ 52" by (rule powr_numeral) simp
  finally have q: "(2::real) powr of_int (max \<lfloor>log 2 \<bar>1::real\<bar>\<rfloor> (- 1022) - 52)
      = 1 / 4503599627370496"
    by (simp only: p52 inverse_eq_divide)
  have r: "round_half_even ((1::real) / (1 / 4503599627370496)) = 4503599627370496"
    by (simp add: round_half_even_def)
  have big: "\<not> \<bar>of_int 4503599627370496 * (1 / 4503599627370496) :: real\<bar> \<ge> 2 ^ 1024"
    by (rule below_overflow) simp
  have v: "of_int 4503599627370496 * (1 / 4503599627370496) = (1 :: real)" by simp
  have nz: "(1::real) \<noteq> 0" by simp
  show ?thesis
    unfolding double_round_def Let_def q r
    using nz big v by (simp only: if_False)
qed

lemma true_div_1_1: "true_div 1 1 = Inr (Some 1)"
  by (simp add: true_div_def double_round_1)

lemma n_steps_1_1: "n_steps_of 1 1 = Inr 1"
  by (simp add: n_steps_of_def true_div_1_1)

text \<open>
  The quotient \<open>3.0 / 0.3\<close>. The double \<open>0.3\<close> lies below three tenths, so the exact
  quotient lies above 10, by less than half of the spacing \<open>2 ^ - 49\<close> of the doubles
  between 8 and 16: Python computes \<open>10.0\<close>, and ten steps, where the exact quotient has
  the ceiling 11.
\<close>

lemma three_tenths_exponent:
  "\<lfloor>log 2 \<bar>3 / (5404319552844595 / 18014398509481984) :: real\<bar>\<rfloor> = 3"
proof -
  have "\<lfloor>log 2 (3 / (5404319552844595 / 18014398509481984) :: real)\<rfloor> = 3"
    by (rule floor_log2) simp_all
  then show ?thesis by simp
qed

lemma three_tenths_quantum: "(2::real) powr of_int (max 3 (- 1022) - 52) = 1 / 562949953421312"
proof -
  have p49: "(2::real) ^ 49 = 562949953421312" by simp
  have "max 3 (- 1022) - 52 = (- 49 :: int)" by simp
  then have "(2::real) powr of_int (max 3 (- 1022) - 52) = 2 powr (- 49)" by simp
  also have "\<dots> = inverse (2 powr 49)" by (rule powr_minus)
  also have "(2::real) powr 49 = 2 ^ 49" by (rule powr_numeral) simp
  finally show ?thesis by (simp only: p49 inverse_eq_divide)
qed

lemma three_tenths_floor:
  "\<lfloor>(3 / (5404319552844595 / 18014398509481984) :: real) / (1 / 562949953421312)\<rfloor>
    = 5629499534213120"
proof (rule floor_unique)
  show "of_int 5629499534213120
      \<le> (3 / (5404319552844595 / 18014398509481984) :: real) / (1 / 562949953421312)"
    by (simp add: field_simps)
  show "(3 / (5404319552844595 / 18014398509481984) :: real) / (1 / 562949953421312)
      < of_int 5629499534213120 + 1"
    by (simp add: field_simps)
qed

lemma three_tenths_round:
  "round_half_even
     ((3 / (5404319552844595 / 18014398509481984) :: real) / (1 / 562949953421312))
    = 5629499534213120"
  unfolding round_half_even_def Let_def three_tenths_floor by (simp add: field_simps)

lemma double_round_three_tenths:
  "double_round (3 / (5404319552844595 / 18014398509481984)) = Some 10"
proof -
  have nz: "(3 / (5404319552844595 / 18014398509481984) :: real) \<noteq> 0" by simp
  have big: "\<not> \<bar>of_int 5629499534213120 * (1 / 562949953421312) :: real\<bar> \<ge> 2 ^ 1024"
    by (rule below_overflow) simp
  have v: "of_int 5629499534213120 * (1 / 562949953421312) = (10 :: real)" by simp
  show ?thesis
    unfolding double_round_def Let_def three_tenths_exponent three_tenths_quantum
      three_tenths_round
    using nz big v by (simp only: if_False)
qed

lemma true_div_three_tenths: "true_div 3 three_tenths = Inr (Some 10)"
proof -
  have "(5404319552844595 / 18014398509481984 :: real) \<noteq> 0" by simp
  then show ?thesis
    unfolding true_div_def three_tenths_def double_round_three_tenths by simp
qed

lemma exact_quotient_three_tenths: "\<lceil>3 / three_tenths\<rceil> = 11"
  unfolding three_tenths_def by (rule ceiling_unique) (simp_all add: field_simps)

subsection \<open>Running programs\<close>

lemma seq_lift_Inr [simp]: "seq (lift (Inr x)) k = k x"
  by (simp add: seq_def lift_def)

lemma seq_lift_Inl [simp]: "seq (lift (Inl e)) k = raises e"
  by (simp add: seq_def lift_def raises_def)

lemma seq_returns [simp]: "seq (returns x) k = k x"
  by (simp add: seq_def returns_def)

lemma seq_raises [simp]: "seq (raises e) k = raises e"
  by (simp add: seq_def raises_def)

subsection \<open>What a run leaves alone\<close>

text \<open>
  Reading, evaluating the acceleration function and allocating never change a cell that
  exists; \<open>update\<close> changes the arrays of the state it is applied to, and the integrators
  apply it to their own copy only, whose arrays are allocated after the call began.
\<close>

lemma preserves_lift [intro!, simp]: "preserves_below n (lift r)"
  by (simp add: preserves_below_def lift_def)

lemma preserves_returns [intro!, simp]: "preserves_below n (returns x)"
  by (simp add: preserves_below_def returns_def)

lemma preserves_raises [intro!, simp]: "preserves_below n (raises e)"
  by (simp add: preserves_below_def raises_def)

lemma preserves_read_positions [intro!, simp]: "preserves_below n (read_positions s)"
  by (simp add: preserves_below_def read_positions_def)

lemma preserves_read_velocities [intro!, simp]: "preserves_below n (read_velocities s)"
  by (simp add: preserves_below_def read_velocities_def)

lemma preserves_evaluate [intro!, simp]: "preserves_below n (evaluate f s cfg)"
  by (simp add: preserves_below_def evaluate_def Let_def)

lemma preserves_seq_dep:
  assumes "preserves_below n m"
    and "\<And>w x. n \<le> length (heap w) \<Longrightarrow> fst (m w) = Inr x \<Longrightarrow> preserves_below n (k x)"
  shows "preserves_below n (seq m k)"
  unfolding preserves_below_def
proof (intro allI impI)
  fix w :: world assume n: "n \<le> length (heap w)"
  obtain r w' where mw: "m w = (r, w')" by (cases "m w")
  from assms(1) n mw have w': "n \<le> length (heap w')" "take n (heap w') = take n (heap w)"
    by (auto simp: preserves_below_def)
  show "n \<le> length (heap (snd (seq m k w))) \<and> take n (heap (snd (seq m k w))) = take n (heap w)"
  proof (cases r)
    case (Inl e)
    then show ?thesis using mw w' by (simp add: seq_def)
  next
    case (Inr x)
    then have "preserves_below n (k x)" using assms(2)[OF n, of x] mw by simp
    then have "n \<le> length (heap (snd (k x w'))) \<and> take n (heap (snd (k x w'))) = take n (heap w')"
      using w'(1) by (simp add: preserves_below_def)
    then show ?thesis using mw Inr w' by (simp add: seq_def)
  qed
qed

lemma preserves_seq [intro!]:
  "preserves_below n m \<Longrightarrow> (\<And>x. preserves_below n (k x)) \<Longrightarrow> preserves_below n (seq m k)"
  by (rule preserves_seq_dep)

lemma update_heap_length [simp]: "length (update_heap s ps vs h) = length h"
  by (induction s ps vs h rule: update_heap.induct) simp_all

lemma update_heap_take:
  "\<forall>b \<in> set s. n \<le> position b \<and> n \<le> velocity b \<Longrightarrow>
     take n (update_heap s ps vs h) = take n h"
  by (induction s ps vs h rule: update_heap.induct) simp_all

lemma preserves_update [intro]:
  "\<forall>b \<in> set s. n \<le> position b \<and> n \<le> velocity b \<Longrightarrow> preserves_below n (update s ps vs)"
  by (simp add: preserves_below_def update_def update_heap_take)

lemma copy_bodies_fresh:
  "copy_bodies s h = (s', h') \<Longrightarrow>
     (\<exists>ext. h' = h @ ext) \<and> (\<forall>b \<in> set s'. length h \<le> position b \<and> length h \<le> velocity b)"
proof (induction s arbitrary: h s' h')
  case Nil
  then show ?case by simp
next
  case (Cons b bs)
  obtain bs' h2 where rec: "copy_bodies bs (h @ [h ! position b, h ! velocity b]) = (bs', h2)"
    by (cases "copy_bodies bs (h @ [h ! position b, h ! velocity b])")
  from Cons.IH[OF rec] obtain ext where
    ext: "h2 = (h @ [h ! position b, h ! velocity b]) @ ext"
    and fresh: "\<forall>b' \<in> set bs'. length h + 2 \<le> position b' \<and> length h + 2 \<le> velocity b'"
    by auto
  from Cons.prems rec have "s' = \<lparr>name = name b, mass = mass b, position = length h,
      velocity = length h + 1, color = color b\<rparr> # bs'" "h' = h2"
    by (auto simp: body_copy_def)
  then show ?case using ext fresh by auto
qed

lemma preserves_state_copy [intro!, simp]: "preserves_below n (state_copy s)"
proof -
  have "n \<le> length (heap (snd (state_copy s w))) \<and> take n (heap (snd (state_copy s w))) = take n (heap w)"
    if "n \<le> length (heap w)" for w :: world
  proof -
    obtain s' h' where c: "copy_bodies s (heap w) = (s', h')" by (cases "copy_bodies s (heap w)")
    from copy_bodies_fresh[OF c] obtain ext where "h' = heap w @ ext" by auto
    then show ?thesis using c that by (simp add: state_copy_def)
  qed
  then show ?thesis by (simp add: preserves_below_def)
qed

lemma state_copy_fresh:
  assumes "n \<le> length (heap w)" "fst (state_copy s w) = Inr s'"
  shows "\<forall>b \<in> set s'. n \<le> position b \<and> n \<le> velocity b"
proof -
  obtain s2 h' where c: "copy_bodies s (heap w) = (s2, h')" by (cases "copy_bodies s (heap w)")
  with assms(2) have "s2 = s'" by (simp add: state_copy_def)
  with copy_bodies_fresh[OF c] assms(1) show ?thesis by fastforce
qed

lemma preserves_leapfrog_step:
  "\<forall>b \<in> set temp. n \<le> position b \<and> n \<le> velocity b \<Longrightarrow>
     preserves_below n (leapfrog_step f cfg dt temp k step vars)"
  unfolding leapfrog_step_def by (auto split: prod.splits)

lemma preserves_leapfrog_loop:
  "\<forall>b \<in> set temp. n \<le> position b \<and> n \<le> velocity b \<Longrightarrow>
     preserves_below n (leapfrog_loop f cfg dt temp k steps vars)"
  by (induction steps arbitrary: vars) (auto intro: preserves_leapfrog_step)

lemma preserves_rk4_step:
  "\<forall>b \<in> set temp. n \<le> position b \<and> n \<le> velocity b \<Longrightarrow>
     preserves_below n (rk4_step f cfg dt temp k step vars)"
  unfolding rk4_step_def Let_def by (auto split: prod.splits)

lemma preserves_rk4_loop:
  "\<forall>b \<in> set temp. n \<le> position b \<and> n \<le> velocity b \<Longrightarrow>
     preserves_below n (rk4_loop f cfg dt temp k steps vars)"
  by (induction steps arbitrary: vars) (auto intro: preserves_rk4_step)

lemma preserves_leapfrog: "preserves_below n (leapfrog s duration dt f cfg)"
  unfolding leapfrog_def
  by (intro preserves_seq preserves_lift preserves_read_positions preserves_read_velocities
        preserves_seq_dep[OF preserves_state_copy] preserves_evaluate preserves_returns
        preserves_leapfrog_loop state_copy_fresh)

lemma preserves_rk4: "preserves_below n (rk4 s duration dt f cfg)"
  unfolding rk4_def
  by (intro preserves_seq preserves_lift preserves_read_positions preserves_read_velocities
        preserves_seq_dep[OF preserves_state_copy] preserves_rk4_loop state_copy_fresh)


lemma preserves_integrate: "preserves_below n (integrate s duration dt method f cfg)"
  unfolding integrate_def map_of_integrators
  by (auto intro: preserves_leapfrog preserves_rk4)

text \<open>
  Claim C7. Let the arrays of the caller's state exist in the heap. After a call of
  \<open>integrate\<close>, with any method name, acceleration function and configuration, and
  whether it returns or raises, a reader of the caller's state sees what it saw before:
  the same names, masses, positions and velocities. No array that existed before the
  call has changed.
\<close>

theorem integrate_leaves_state:
  assumes "\<forall>b \<in> set state. position b < length (heap w) \<and> velocity b < length (heap w)"
  shows "view (heap (snd (integrate state duration dt method acceleration_fn precession_config w)))
             state
           = view (heap w) state
         \<and> take (length (heap w))
             (heap (snd (integrate state duration dt method acceleration_fn precession_config w)))
           = heap w"
proof -
  let ?h' = "heap (snd (integrate state duration dt method acceleration_fn precession_config w))"
  have "preserves_below (length (heap w))
          (integrate state duration dt method acceleration_fn precession_config)"
    by (rule preserves_integrate)
  then have t: "take (length (heap w)) ?h' = heap w"
    by (simp add: preserves_below_def)
  have "?h' ! a = heap w ! a" if "a < length (heap w)" for a
    using that t by (metis nth_take)
  then have "body_view ?h' b = body_view (heap w) b" if "b \<in> set state" for b
    using assms that by (simp add: body_view_def)
  then show ?thesis using t by (simp add: view_def)
qed

lemma upt_1_2: "[1..<2] = [1]"
  by code_simp

text \<open>A star moving to the right, integrated for one step.\<close>

theorem integrate_leaves_state_witness:
  "view (heap (snd (integrate
       [\<lparr>name = ''Star'', mass = 1, position = 0, velocity = 1, color = ''orange''\<rparr>]
       1 1 ''leapfrog'' compute_accelerations None \<lparr>heap = [(0, 0), (1, 0)], evals = []\<rparr>)))
     [\<lparr>name = ''Star'', mass = 1, position = 0, velocity = 1, color = ''orange''\<rparr>]
   = [\<lparr>name = ''Star'', mass = 1, position = (0, 0), velocity = (1, 0), color = ''orange''\<rparr>]"
  using integrate_leaves_state
    [of "[\<lparr>name = ''Star'', mass = 1, position = 0, velocity = 1, color = ''orange''\<rparr>]"
        "\<lparr>heap = [(0, 0), (1, 0)], evals = []\<rparr>" 1 1 "''leapfrog''" compute_accelerations None]
  by (simp add: view_def body_view_def)

subsection \<open>Outcomes of sequenced programs\<close>

lemma seq_Inr_iff:
  "seq m k w = (Inr y, w') \<longleftrightarrow> (\<exists>x w1. m w = (Inr x, w1) \<and> k x w1 = (Inr y, w'))"
  by (cases "m w"; cases "fst (m w)") (auto simp: seq_def)

lemma lift_eq [simp]: "lift r w = (r', w') \<longleftrightarrow> r' = r \<and> w' = w"
  by (auto simp: lift_def)

lemma returns_eq [simp]: "returns x w = (r, w') \<longleftrightarrow> r = Inr x \<and> w' = w"
  by (auto simp: returns_def)

lemma store_Inr:
  "store arr n k val = Inr arr' \<Longrightarrow>
     k < length arr \<and> (\<exists>row. length row = n \<and> arr' = arr[k := row])"
proof -
  assume st: "store arr n k val = Inr arr'"
  then have k: "k < length arr" by (auto simp: store_def split: if_splits)
  with st obtain row where row: "np_assign n val = Inr row" "arr' = arr[k := row]"
    by (auto simp: store_def split: sum.splits)
  from row(1) have "length row = n" by (auto simp: np_assign_def split: if_splits)
  with k row(2) show ?thesis by blast
qed

lemma leapfrog_step_shape:
  assumes "leapfrog_step f cfg dt temp n step (ps, vs, a) w = (Inr (ps', vs', a'), w')"
  shows "step < length ps \<and> step < length vs
       \<and> (\<exists>p v. length p = n \<and> length v = n \<and> ps' = ps[step := p] \<and> vs' = vs[step := v])"
  using assms unfolding leapfrog_step_def
  by (auto simp: seq_Inr_iff dest!: store_Inr[OF sym])

lemma rk4_step_shape:
  assumes "rk4_step f cfg dt temp n step (ps, vs) w = (Inr (ps', vs'), w')"
  shows "step < length ps \<and> step < length vs
       \<and> (\<exists>p v. length p = n \<and> length v = n \<and> ps' = ps[step := p] \<and> vs' = vs[step := v])"
  using assms unfolding rk4_step_def Let_def
  by (auto simp: seq_Inr_iff dest!: store_Inr[OF sym])


lemma seq_lift: "seq (lift r) k w = (case r of Inl e \<Rightarrow> (Inl e, w) | Inr x \<Rightarrow> k x w)"
  by (simp add: seq_def lift_def split: sum.splits)

lemma seq_update:
  "seq (update s ps vs) k w = k () (w\<lparr>heap := update_heap s ps vs (heap w)\<rparr>)"
  by (simp add: seq_def update_def)

lemma seq_evaluate:
  "seq (evaluate f s cfg) k w =
     (case f (view (heap w) s) cfg of
        Inl e \<Rightarrow> (Inl e, w\<lparr>evals := evals w @ [view (heap w) s]\<rparr>)
      | Inr a \<Rightarrow> k a (w\<lparr>evals := evals w @ [view (heap w) s]\<rparr>))"
  by (simp add: seq_def evaluate_def Let_def split: sum.splits)

lemma seq_read_positions:
  "seq (read_positions s) k w =
     (case state_positions (view (heap w) s) of Inl e \<Rightarrow> (Inl e, w) | Inr p \<Rightarrow> k p w)"
  by (simp add: seq_def read_positions_def split: sum.splits)

lemma seq_read_velocities:
  "seq (read_velocities s) k w =
     (case state_velocities (view (heap w) s) of Inl e \<Rightarrow> (Inl e, w) | Inr p \<Rightarrow> k p w)"
  by (simp add: seq_def read_velocities_def split: sum.splits)

lemma seq_state_copy:
  "seq (state_copy s) k w
     = k (fst (copy_bodies s (heap w))) (w\<lparr>heap := snd (copy_bodies s (heap w))\<rparr>)"
  by (simp add: seq_def state_copy_def split: prod.splits)

lemma length_view [simp]: "length (view h s) = length s"
  by (simp add: view_def)

lemma length_scale [simp]: "length (scale c xs) = length xs"
  by (simp add: scale_def)

lemma np_add_same:
  "length xs = length ys \<Longrightarrow> np_add xs ys = Inr (map2 vadd xs ys)"
  by (simp add: np_add_def)

lemma store_same:
  "k < length arr \<Longrightarrow> length val = n \<Longrightarrow> store arr n k val = Inr (arr[k := val])"
  by (simp add: store_def np_assign_def)

lemma copy_bodies_length [simp]: "length (fst (copy_bodies s h)) = length s"
  by (induction s arbitrary: h) (simp_all add: split_def Let_def body_copy_def)

lemma leapfrog_step_total:
  assumes g: "\<forall>sys. length sys = n \<longrightarrow> f sys cfg = Inr (g sys) \<and> length (g sys) = n"
    and "0 < step" "step < length ps" "step < length vs"
    and "\<forall>r \<in> set ps. length r = n" "\<forall>r \<in> set vs. length r = n"
    and "length a = n" "length temp = n"
  shows "\<exists>ps' vs' a' w'. leapfrog_step f cfg dt temp n step (ps, vs, a) w
            = (Inr (ps', vs', a'), w') \<and> length a' = n"
proof -
  have r: "length (ps ! (step - 1)) = n" "length (vs ! (step - 1)) = n"
    using assms by (auto simp: less_imp_diff_less)
  show ?thesis
    unfolding leapfrog_step_def
    using r assms(3,4,7,8) g
    by (simp add: np_add_same seq_lift seq_update seq_evaluate store_same returns_def)
qed

lemma rk4_step_total:
  assumes g: "\<forall>sys. length sys = n \<longrightarrow> f sys cfg = Inr (g sys) \<and> length (g sys) = n"
    and "0 < step" "step < length ps" "step < length vs"
    and "\<forall>r \<in> set ps. length r = n" "\<forall>r \<in> set vs. length r = n"
    and "length temp = n"
  shows "\<exists>ps' vs' w'. rk4_step f cfg dt temp n step (ps, vs) w = (Inr (ps', vs'), w')"
proof -
  have r: "length (ps ! (step - 1)) = n" "length (vs ! (step - 1)) = n"
    using assms by (auto simp: less_imp_diff_less)
  show ?thesis
    unfolding rk4_step_def Let_def
    using r assms(3,4,7) g
    by (simp add: np_add_same seq_lift seq_update seq_evaluate store_same returns_def)
qed

lemma view_Nil_iff [simp]: "view h s = [] \<longleftrightarrow> s = []"
  by (simp add: view_def)

lemma integrator_prefix:
  assumes "n_steps_of duration dt = Inr N"
  shows "seq (lift (n_steps_of duration dt)) (\<lambda>n_steps.
     seq (lift (np_zeros (n_steps + 1) (length state))) (\<lambda>zeros.
     seq (read_positions state) (\<lambda>p0.
     seq (lift (store zeros (length state) 0 p0)) (\<lambda>positions.
     seq (read_velocities state) (\<lambda>v0.
     seq (lift (store zeros (length state) 0 v0)) (\<lambda>velocities.
     seq (state_copy state) (\<lambda>temp_state.
     K n_steps positions velocities temp_state))))))) w
   = (if N + 1 < 0
        then (Inl (ValueError ''negative dimensions are not allowed''), w)
      else if state = [] then (Inl (ValueError ''need at least one array to stack''), w)
      else if N + 1 = 0 then (Inl IndexError, w)
      else K N
             ((replicate (nat (N + 1)) (replicate (length state) (0, 0)))
                [0 := map position (view (heap w) state)])
             ((replicate (nat (N + 1)) (replicate (length state) (0, 0)))
                [0 := map velocity (view (heap w) state)])
             (fst (copy_bodies state (heap w)))
             (w\<lparr>heap := snd (copy_bodies state (heap w))\<rparr>))"
  unfolding assms
  by (simp add: seq_lift seq_read_positions seq_read_velocities seq_state_copy
        np_zeros_def state_positions_def state_velocities_def store_def np_assign_def
        raises_def)

lemma n_steps_of_Inr:
  "n_steps_of duration dt = Inr N \<longleftrightarrow> (\<exists>q. true_div duration dt = Inr (Some q) \<and> N = \<lceil>q\<rceil>)"
  by (auto simp: n_steps_of_def split: sum.splits option.splits)

lemma n_steps_of_zero: "n_steps_of duration 0 = Inl ZeroDivisionError"
  by (simp add: n_steps_of_def true_div_def)

subsection \<open>The stepping loops\<close>

lemma rows_update:
  "\<forall>r \<in> set arr. length r = n \<Longrightarrow> length p = n \<Longrightarrow> \<forall>r \<in> set (arr[k := p]). length r = n"
  using set_update_subset_insert[of arr k p] by auto

lemma leapfrog_loop_shape:
  "leapfrog_loop f cfg dt temp n steps (ps, vs, a) w = (Inr (ps', vs', a'), w') \<Longrightarrow>
     0 \<notin> set steps \<Longrightarrow>
     length ps' = length ps \<and> length vs' = length vs \<and> ps' ! 0 = ps ! 0 \<and> vs' ! 0 = vs ! 0
     \<and> ((\<forall>r \<in> set ps. length r = n) \<longrightarrow> (\<forall>r \<in> set ps'. length r = n))
     \<and> ((\<forall>r \<in> set vs. length r = n) \<longrightarrow> (\<forall>r \<in> set vs'. length r = n))"
proof (induction steps arbitrary: ps vs a w)
  case Nil
  then show ?case by simp
next
  case (Cons step steps)
  from Cons.prems(1) have "\<exists>ps1 vs1 a1 w1.
    leapfrog_step f cfg dt temp n step (ps, vs, a) w = (Inr (ps1, vs1, a1), w1)
    \<and> leapfrog_loop f cfg dt temp n steps (ps1, vs1, a1) w1 = (Inr (ps', vs', a'), w')"
    by (auto simp: seq_Inr_iff)
  then obtain ps1 vs1 a1 w1 where
    st: "leapfrog_step f cfg dt temp n step (ps, vs, a) w = (Inr (ps1, vs1, a1), w1)"
    and rest: "leapfrog_loop f cfg dt temp n steps (ps1, vs1, a1) w1 = (Inr (ps', vs', a'), w')"
    by blast
  from leapfrog_step_shape[OF st] obtain p v where
    pv: "length p = n" "length v = n" "ps1 = ps[step := p]" "vs1 = vs[step := v]"
    by blast
  from Cons.prems(2) have z: "step \<noteq> 0" "0 \<notin> set steps" by auto
  have r1: "\<forall>r \<in> set ps1. length r = n" if "\<forall>r \<in> set ps. length r = n"
    using rows_update[OF that pv(1)] pv(3) by simp
  have r2: "\<forall>r \<in> set vs1. length r = n" if "\<forall>r \<in> set vs. length r = n"
    using rows_update[OF that pv(2)] pv(4) by simp
  note ih = Cons.IH[OF rest z(2)]
  have "length ps' = length ps" "length vs' = length vs" using ih pv(3,4) by simp_all
  moreover have "ps' ! 0 = ps ! 0" "vs' ! 0 = vs ! 0" using ih pv(3,4) z(1) by simp_all
  moreover have "\<forall>r \<in> set ps'. length r = n" if "\<forall>r \<in> set ps. length r = n"
    using ih r1[OF that] by blast
  moreover have "\<forall>r \<in> set vs'. length r = n" if "\<forall>r \<in> set vs. length r = n"
    using ih r2[OF that] by blast
  ultimately show ?case by blast
qed

lemma rk4_loop_shape:
  "rk4_loop f cfg dt temp n steps (ps, vs) w = (Inr (ps', vs'), w') \<Longrightarrow>
     0 \<notin> set steps \<Longrightarrow>
     length ps' = length ps \<and> length vs' = length vs \<and> ps' ! 0 = ps ! 0 \<and> vs' ! 0 = vs ! 0
     \<and> ((\<forall>r \<in> set ps. length r = n) \<longrightarrow> (\<forall>r \<in> set ps'. length r = n))
     \<and> ((\<forall>r \<in> set vs. length r = n) \<longrightarrow> (\<forall>r \<in> set vs'. length r = n))"
proof (induction steps arbitrary: ps vs w)
  case Nil
  then show ?case by simp
next
  case (Cons step steps)
  from Cons.prems(1) have "\<exists>ps1 vs1 w1.
    rk4_step f cfg dt temp n step (ps, vs) w = (Inr (ps1, vs1), w1)
    \<and> rk4_loop f cfg dt temp n steps (ps1, vs1) w1 = (Inr (ps', vs'), w')"
    by (auto simp: seq_Inr_iff)
  then obtain ps1 vs1 w1 where
    st: "rk4_step f cfg dt temp n step (ps, vs) w = (Inr (ps1, vs1), w1)"
    and rest: "rk4_loop f cfg dt temp n steps (ps1, vs1) w1 = (Inr (ps', vs'), w')"
    by blast
  from rk4_step_shape[OF st] obtain p v where
    pv: "length p = n" "length v = n" "ps1 = ps[step := p]" "vs1 = vs[step := v]"
    by blast
  from Cons.prems(2) have z: "step \<noteq> 0" "0 \<notin> set steps" by auto
  have r1: "\<forall>r \<in> set ps1. length r = n" if "\<forall>r \<in> set ps. length r = n"
    using rows_update[OF that pv(1)] pv(3) by simp
  have r2: "\<forall>r \<in> set vs1. length r = n" if "\<forall>r \<in> set vs. length r = n"
    using rows_update[OF that pv(2)] pv(4) by simp
  note ih = Cons.IH[OF rest z(2)]
  have "length ps' = length ps" "length vs' = length vs" using ih pv(3,4) by simp_all
  moreover have "ps' ! 0 = ps ! 0" "vs' ! 0 = vs ! 0" using ih pv(3,4) z(1) by simp_all
  moreover have "\<forall>r \<in> set ps'. length r = n" if "\<forall>r \<in> set ps. length r = n"
    using ih r1[OF that] by blast
  moreover have "\<forall>r \<in> set vs'. length r = n" if "\<forall>r \<in> set vs. length r = n"
    using ih r2[OF that] by blast
  ultimately show ?case by blast
qed

lemma leapfrog_loop_total:
  assumes g: "\<forall>sys. length sys = n \<longrightarrow> f sys cfg = Inr (g sys) \<and> length (g sys) = n"
    and "length temp = n"
  shows "\<forall>s \<in> set steps. 0 < s \<and> s < length ps \<Longrightarrow> length vs = length ps \<Longrightarrow>
     \<forall>r \<in> set ps. length r = n \<Longrightarrow> \<forall>r \<in> set vs. length r = n \<Longrightarrow> length a = n \<Longrightarrow>
     \<exists>ps' vs' a' w'. leapfrog_loop f cfg dt temp n steps (ps, vs, a) w = (Inr (ps', vs', a'), w')"
proof (induction steps arbitrary: ps vs a w)
  case Nil
  then show ?case by simp
next
  case (Cons step steps)
  from Cons.prems(1,2) have s: "0 < step" "step < length ps" "step < length vs" by simp_all
  from leapfrog_step_total[where f=f and g=g and w=w and dt=dt, OF g s Cons.prems(3,4,5) assms(2)]
  obtain ps1 vs1 a1 w1 where
    st: "leapfrog_step f cfg dt temp n step (ps, vs, a) w = (Inr (ps1, vs1, a1), w1)"
    and a1: "length a1 = n"
    by blast
  from leapfrog_step_shape[OF st] obtain p v where
    pv: "length p = n" "length v = n" "ps1 = ps[step := p]" "vs1 = vs[step := v]"
    by blast
  have "\<exists>ps' vs' a' w'. leapfrog_loop f cfg dt temp n steps (ps1, vs1, a1) w1
          = (Inr (ps', vs', a'), w')"
  proof (rule Cons.IH)
    show "\<forall>s \<in> set steps. 0 < s \<and> s < length ps1" using Cons.prems(1) pv(3) by simp
    show "length vs1 = length ps1" using Cons.prems(2) pv(3,4) by simp
    show "\<forall>r \<in> set ps1. length r = n" using rows_update[OF Cons.prems(3) pv(1)] pv(3) by simp
    show "\<forall>r \<in> set vs1. length r = n" using rows_update[OF Cons.prems(4) pv(2)] pv(4) by simp
    show "length a1 = n" by (rule a1)
  qed
  then obtain ps' vs' a' w' where
    "leapfrog_loop f cfg dt temp n steps (ps1, vs1, a1) w1 = (Inr (ps', vs', a'), w')"
    by blast
  with st have "leapfrog_loop f cfg dt temp n (step # steps) (ps, vs, a) w
      = (Inr (ps', vs', a'), w')"
    by (simp add: seq_def)
  then show ?case by blast
qed

lemma rk4_loop_total:
  assumes g: "\<forall>sys. length sys = n \<longrightarrow> f sys cfg = Inr (g sys) \<and> length (g sys) = n"
    and "length temp = n"
  shows "\<forall>s \<in> set steps. 0 < s \<and> s < length ps \<Longrightarrow> length vs = length ps \<Longrightarrow>
     \<forall>r \<in> set ps. length r = n \<Longrightarrow> \<forall>r \<in> set vs. length r = n \<Longrightarrow>
     \<exists>ps' vs' w'. rk4_loop f cfg dt temp n steps (ps, vs) w = (Inr (ps', vs'), w')"
proof (induction steps arbitrary: ps vs w)
  case Nil
  then show ?case by simp
next
  case (Cons step steps)
  from Cons.prems(1,2) have s: "0 < step" "step < length ps" "step < length vs" by simp_all
  from rk4_step_total[where f=f and g=g and w=w and dt=dt, OF g s Cons.prems(3,4) assms(2)]
  obtain ps1 vs1 w1 where
    st: "rk4_step f cfg dt temp n step (ps, vs) w = (Inr (ps1, vs1), w1)"
    by blast
  from rk4_step_shape[OF st] obtain p v where
    pv: "length p = n" "length v = n" "ps1 = ps[step := p]" "vs1 = vs[step := v]"
    by blast
  have "\<exists>ps' vs' w'. rk4_loop f cfg dt temp n steps (ps1, vs1) w1 = (Inr (ps', vs'), w')"
  proof (rule Cons.IH)
    show "\<forall>s \<in> set steps. 0 < s \<and> s < length ps1" using Cons.prems(1) pv(3) by simp
    show "length vs1 = length ps1" using Cons.prems(2) pv(3,4) by simp
    show "\<forall>r \<in> set ps1. length r = n" using rows_update[OF Cons.prems(3) pv(1)] pv(3) by simp
    show "\<forall>r \<in> set vs1. length r = n" using rows_update[OF Cons.prems(4) pv(2)] pv(4) by simp
  qed
  then obtain ps' vs' w' where
    "rk4_loop f cfg dt temp n steps (ps1, vs1) w1 = (Inr (ps', vs'), w')"
    by blast
  with st have "rk4_loop f cfg dt temp n (step # steps) (ps, vs) w = (Inr (ps', vs'), w')"
    by (simp add: seq_def)
  then show ?case by blast
qed

subsection \<open>The integrators from start to end\<close>

lemma leapfrog_raises:
  assumes "n_steps_of duration dt = Inl e"
  shows "leapfrog state duration dt f cfg w = (Inl e, w)"
  unfolding leapfrog_def assms by (simp add: raises_def)

lemma rk4_raises:
  assumes "n_steps_of duration dt = Inl e"
  shows "rk4 state duration dt f cfg w = (Inl e, w)"
  unfolding rk4_def assms by (simp add: raises_def)

lemma leapfrog_cases:
  assumes "n_steps_of duration dt = Inr N"
  shows "leapfrog state duration dt f cfg w
   = (if N + 1 < 0
        then (Inl (ValueError ''negative dimensions are not allowed''), w)
      else if state = [] then (Inl (ValueError ''need at least one array to stack''), w)
      else if N + 1 = 0 then (Inl IndexError, w)
      else seq (evaluate f (fst (copy_bodies state (heap w))) cfg) (\<lambda>accel.
           seq (leapfrog_loop f cfg dt (fst (copy_bodies state (heap w))) (length state)
                  [1 ..< nat (N + 1)]
                  ((replicate (nat (N + 1)) (replicate (length state) (0, 0)))
                     [0 := map position (view (heap w) state)],
                   (replicate (nat (N + 1)) (replicate (length state) (0, 0)))
                     [0 := map velocity (view (heap w) state)],
                   accel)) (\<lambda>vars.
           returns (fst vars, fst (snd vars))))
             (w\<lparr>heap := snd (copy_bodies state (heap w))\<rparr>))"
  unfolding leapfrog_def by (rule integrator_prefix[OF assms])

lemma rk4_cases:
  assumes "n_steps_of duration dt = Inr N"
  shows "rk4 state duration dt f cfg w
   = (if N + 1 < 0
        then (Inl (ValueError ''negative dimensions are not allowed''), w)
      else if state = [] then (Inl (ValueError ''need at least one array to stack''), w)
      else if N + 1 = 0 then (Inl IndexError, w)
      else rk4_loop f cfg dt (fst (copy_bodies state (heap w))) (length state)
                  [1 ..< nat (N + 1)]
                  ((replicate (nat (N + 1)) (replicate (length state) (0, 0)))
                     [0 := map position (view (heap w) state)],
                   (replicate (nat (N + 1)) (replicate (length state) (0, 0)))
                     [0 := map velocity (view (heap w) state)])
             (w\<lparr>heap := snd (copy_bodies state (heap w))\<rparr>))"
  unfolding rk4_def by (rule integrator_prefix[OF assms])

lemma initial_rows:
  assumes "0 < m" "length row = n"
  shows "length ((replicate m (replicate n (0::real, 0::real)))[0 := row]) = m"
    and "\<forall>r \<in> set ((replicate m (replicate n (0::real, 0::real)))[0 := row]). length r = n"
    and "(replicate m (replicate n (0::real, 0::real)))[0 := row] ! 0 = row"
proof -
  show "length ((replicate m (replicate n (0::real, 0::real)))[0 := row]) = m" by simp
  show "(replicate m (replicate n (0::real, 0::real)))[0 := row] ! 0 = row"
    using assms(1) by simp
  have "\<forall>r \<in> set (replicate m (replicate n (0::real, 0::real))). length r = n" by simp
  from rows_update[OF this assms(2)]
  show "\<forall>r \<in> set ((replicate m (replicate n (0::real, 0::real)))[0 := row]). length r = n" .
qed

lemma leapfrog_shape:
  assumes run: "leapfrog state duration dt f cfg w = (Inr (ps, vs), w')"
  shows "\<exists>N. n_steps_of duration dt = Inr N \<and> 0 \<le> N
       \<and> length ps = nat N + 1 \<and> length vs = nat N + 1
       \<and> (\<forall>r \<in> set ps. length r = length state) \<and> (\<forall>r \<in> set vs. length r = length state)
       \<and> ps ! 0 = map position (view (heap w) state)
       \<and> vs ! 0 = map velocity (view (heap w) state)"
proof -
  from run leapfrog_raises[of duration dt _ state f cfg w] obtain N where
    nN: "n_steps_of duration dt = Inr N"
    by (cases "n_steps_of duration dt") auto
  let ?m = "nat (N + 1)"
  let ?n = "length state"
  let ?P = "(replicate ?m (replicate ?n (0::real, 0::real)))[0 := map position (view (heap w) state)]"
  let ?V = "(replicate ?m (replicate ?n (0::real, 0::real)))[0 := map velocity (view (heap w) state)]"
  let ?temp = "fst (copy_bodies state (heap w))"
  from run have c: "0 \<le> N"
    unfolding leapfrog_cases[OF nN] by (auto split: if_splits)
  then have m: "0 < ?m" "?m = nat N + 1" by auto
  from run c have "\<exists>a w1 a'. leapfrog_loop f cfg dt ?temp ?n [1 ..< ?m] (?P, ?V, a) w1
      = (Inr (ps, vs, a'), w')"
    unfolding leapfrog_cases[OF nN]
    by (auto simp: seq_Inr_iff split: if_splits)
  then obtain a w1 a' where
    loop: "leapfrog_loop f cfg dt ?temp ?n [1 ..< ?m] (?P, ?V, a) w1 = (Inr (ps, vs, a'), w')"
    by blast
  have "0 \<notin> set [1 ..< ?m]" by simp
  from leapfrog_loop_shape[OF loop this]
    initial_rows[OF m(1), of "map position (view (heap w) state)" ?n]
    initial_rows[OF m(1), of "map velocity (view (heap w) state)" ?n]
  show ?thesis using m(2) nN c by simp
qed

lemma rk4_shape:
  assumes run: "rk4 state duration dt f cfg w = (Inr (ps, vs), w')"
  shows "\<exists>N. n_steps_of duration dt = Inr N \<and> 0 \<le> N
       \<and> length ps = nat N + 1 \<and> length vs = nat N + 1
       \<and> (\<forall>r \<in> set ps. length r = length state) \<and> (\<forall>r \<in> set vs. length r = length state)
       \<and> ps ! 0 = map position (view (heap w) state)
       \<and> vs ! 0 = map velocity (view (heap w) state)"
proof -
  from run rk4_raises[of duration dt _ state f cfg w] obtain N where
    nN: "n_steps_of duration dt = Inr N"
    by (cases "n_steps_of duration dt") auto
  let ?m = "nat (N + 1)"
  let ?n = "length state"
  let ?P = "(replicate ?m (replicate ?n (0::real, 0::real)))[0 := map position (view (heap w) state)]"
  let ?V = "(replicate ?m (replicate ?n (0::real, 0::real)))[0 := map velocity (view (heap w) state)]"
  let ?temp = "fst (copy_bodies state (heap w))"
  from run have c: "0 \<le> N"
    unfolding rk4_cases[OF nN] by (auto split: if_splits)
  then have m: "0 < ?m" "?m = nat N + 1" by auto
  from run c have "\<exists>w1. rk4_loop f cfg dt ?temp ?n [1 ..< ?m] (?P, ?V) w1 = (Inr (ps, vs), w')"
    unfolding rk4_cases[OF nN]
    by (auto split: if_splits)
  then obtain w1 where
    loop: "rk4_loop f cfg dt ?temp ?n [1 ..< ?m] (?P, ?V) w1 = (Inr (ps, vs), w')"
    by blast
  have "0 \<notin> set [1 ..< ?m]" by simp
  from rk4_loop_shape[OF loop this]
    initial_rows[OF m(1), of "map position (view (heap w) state)" ?n]
    initial_rows[OF m(1), of "map velocity (view (heap w) state)" ?n]
  show ?thesis using m(2) nN c by simp
qed

lemma leapfrog_total:
  assumes nN: "n_steps_of duration dt = Inr N" and N0: "0 \<le> N" and ne: "state \<noteq> []"
    and fok: "\<forall>sys. length sys = length state \<longrightarrow> (\<exists>a. f sys cfg = Inr a \<and> length a = length state)"
  shows "\<exists>ps vs w'. leapfrog state duration dt f cfg w = (Inr (ps, vs), w')"
proof -
  let ?m = "nat (N + 1)"
  let ?n = "length state"
  let ?P = "(replicate ?m (replicate ?n (0::real, 0::real)))[0 := map position (view (heap w) state)]"
  let ?V = "(replicate ?m (replicate ?n (0::real, 0::real)))[0 := map velocity (view (heap w) state)]"
  let ?temp = "fst (copy_bodies state (heap w))"
  let ?w1 = "w\<lparr>heap := snd (copy_bodies state (heap w))\<rparr>"
  from fok obtain g where
    g: "\<forall>sys. length sys = ?n \<longrightarrow> f sys cfg = Inr (g sys) \<and> length (g sys) = ?n"
    by metis
  have m: "0 < ?m" using N0 by simp
  let ?a = "g (view (heap ?w1) ?temp)"
  let ?w2 = "?w1\<lparr>evals := evals ?w1 @ [view (heap ?w1) ?temp]\<rparr>"
  have a: "f (view (heap ?w1) ?temp) cfg = Inr ?a" "length ?a = ?n"
    using g by simp_all
  have "\<exists>ps' vs' a' w'. leapfrog_loop f cfg dt ?temp ?n [1 ..< ?m] (?P, ?V, ?a) ?w2
      = (Inr (ps', vs', a'), w')"
  proof (rule leapfrog_loop_total[where g = g])
    show "\<forall>sys. length sys = ?n \<longrightarrow> f sys cfg = Inr (g sys) \<and> length (g sys) = ?n" by (rule g)
    show "length ?temp = ?n" by simp
    show "\<forall>s \<in> set [1 ..< ?m]. 0 < s \<and> s < length ?P" by simp
    show "length ?V = length ?P" by simp
    show "\<forall>r \<in> set ?P. length r = ?n" by (rule initial_rows(2)[OF m]) simp
    show "\<forall>r \<in> set ?V. length r = ?n" by (rule initial_rows(2)[OF m]) simp
    show "length ?a = ?n" by (rule a(2))
  qed
  then obtain ps' vs' a' w' where
    "leapfrog_loop f cfg dt ?temp ?n [1 ..< ?m] (?P, ?V, ?a) ?w2 = (Inr (ps', vs', a'), w')"
    by blast
  moreover have nz: "(N + 1 < 0) = False" "(N + 1 = 0) = False"
    using N0 by simp_all
  ultimately have "leapfrog state duration dt f cfg w = (Inr (ps', vs'), w')"
    unfolding leapfrog_cases[OF nN] nz using ne a(1)
    by (simp add: seq_def evaluate_def Let_def returns_def)
  then show ?thesis by blast
qed

lemma rk4_total:
  assumes nN: "n_steps_of duration dt = Inr N" and N0: "0 \<le> N" and ne: "state \<noteq> []"
    and fok: "\<forall>sys. length sys = length state \<longrightarrow> (\<exists>a. f sys cfg = Inr a \<and> length a = length state)"
  shows "\<exists>ps vs w'. rk4 state duration dt f cfg w = (Inr (ps, vs), w')"
proof -
  let ?m = "nat (N + 1)"
  let ?n = "length state"
  let ?P = "(replicate ?m (replicate ?n (0::real, 0::real)))[0 := map position (view (heap w) state)]"
  let ?V = "(replicate ?m (replicate ?n (0::real, 0::real)))[0 := map velocity (view (heap w) state)]"
  let ?temp = "fst (copy_bodies state (heap w))"
  let ?w1 = "w\<lparr>heap := snd (copy_bodies state (heap w))\<rparr>"
  from fok obtain g where
    g: "\<forall>sys. length sys = ?n \<longrightarrow> f sys cfg = Inr (g sys) \<and> length (g sys) = ?n"
    by metis
  have m: "0 < ?m" using N0 by simp
  have "\<exists>ps' vs' w'. rk4_loop f cfg dt ?temp ?n [1 ..< ?m] (?P, ?V) ?w1 = (Inr (ps', vs'), w')"
  proof (rule rk4_loop_total[where g = g])
    show "\<forall>sys. length sys = ?n \<longrightarrow> f sys cfg = Inr (g sys) \<and> length (g sys) = ?n" by (rule g)
    show "length ?temp = ?n" by simp
    show "\<forall>s \<in> set [1 ..< ?m]. 0 < s \<and> s < length ?P" by simp
    show "length ?V = length ?P" by simp
    show "\<forall>r \<in> set ?P. length r = ?n" by (rule initial_rows(2)[OF m]) simp
    show "\<forall>r \<in> set ?V. length r = ?n" by (rule initial_rows(2)[OF m]) simp
  qed
  moreover have nz: "(N + 1 < 0) = False" "(N + 1 = 0) = False"
    using N0 by simp_all
  ultimately show ?thesis
    unfolding rk4_cases[OF nN] nz using ne by simp
qed

subsection \<open>The shape of a trajectory\<close>

text \<open>
  Claim C5, as the code has it. Let the integrator be \<open>leapfrog\<close> or \<open>rk4\<close>, and let \<open>q\<close> be
  the quotient \<open>duration / dt\<close> as Python computes it, in double precision. Whenever the
  integrator returns, \<open>q\<close> exists and is finite, both arrays hold \<open>ceil(q) + 1\<close> snapshots,
  every snapshot has one row per body, and snapshot 0 holds the positions and the
  velocities of the initial state. It returns when \<open>dt\<close> is not zero, \<open>q\<close> is finite,
  \<open>ceil(q)\<close> is not negative, the state has at least one body, and the acceleration
  function, on every state with as many bodies, returns one row per body.
\<close>

theorem integrator_snapshots:
  assumes "integrator = leapfrog \<or> integrator = rk4"
  shows "(\<forall>ps vs w'.
            integrator state duration dt acceleration_fn precession_config w = (Inr (ps, vs), w') \<longrightarrow>
              (\<exists>q. true_div duration dt = Inr (Some q)
                 \<and> length ps = nat \<lceil>q\<rceil> + 1 \<and> length vs = nat \<lceil>q\<rceil> + 1
                 \<and> (\<forall>k < nat \<lceil>q\<rceil> + 1.
                       length (ps ! k) = length state \<and> length (vs ! k) = length state)
                 \<and> ps ! 0 = map position (view (heap w) state)
                 \<and> vs ! 0 = map velocity (view (heap w) state)))
       \<and> (\<forall>q. true_div duration dt = Inr (Some q) \<longrightarrow> 0 \<le> \<lceil>q\<rceil> \<longrightarrow> state \<noteq> [] \<longrightarrow>
            (\<forall>sys. length sys = length state \<longrightarrow>
               (\<exists>a. acceleration_fn sys precession_config = Inr a \<and> length a = length state)) \<longrightarrow>
            (\<exists>ps vs w'.
               integrator state duration dt acceleration_fn precession_config w = (Inr (ps, vs), w')))"
proof (intro conjI allI impI)
  fix ps vs w'
  assume run: "integrator state duration dt acceleration_fn precession_config w = (Inr (ps, vs), w')"
  have "\<exists>N. n_steps_of duration dt = Inr N \<and> 0 \<le> N
       \<and> length ps = nat N + 1 \<and> length vs = nat N + 1
       \<and> (\<forall>r \<in> set ps. length r = length state) \<and> (\<forall>r \<in> set vs. length r = length state)
       \<and> ps ! 0 = map position (view (heap w) state)
       \<and> vs ! 0 = map velocity (view (heap w) state)"
    using assms run leapfrog_shape rk4_shape by blast
  then obtain N where nN: "n_steps_of duration dt = Inr N"
    and sh: "length ps = nat N + 1" "length vs = nat N + 1"
      "\<forall>r \<in> set ps. length r = length state" "\<forall>r \<in> set vs. length r = length state"
      "ps ! 0 = map position (view (heap w) state)"
      "vs ! 0 = map velocity (view (heap w) state)"
    by blast
  from nN obtain q where q: "true_div duration dt = Inr (Some q)" "N = \<lceil>q\<rceil>"
    unfolding n_steps_of_Inr by blast
  have "\<forall>k < nat \<lceil>q\<rceil> + 1. length (ps ! k) = length state \<and> length (vs ! k) = length state"
  proof (intro allI impI)
    fix k assume "k < nat \<lceil>q\<rceil> + 1"
    with sh(1,2) q(2) have "ps ! k \<in> set ps" "vs ! k \<in> set vs" by simp_all
    with sh(3,4) show "length (ps ! k) = length state \<and> length (vs ! k) = length state"
      by blast
  qed
  with q sh show "\<exists>q. true_div duration dt = Inr (Some q)
      \<and> length ps = nat \<lceil>q\<rceil> + 1 \<and> length vs = nat \<lceil>q\<rceil> + 1
      \<and> (\<forall>k < nat \<lceil>q\<rceil> + 1.
            length (ps ! k) = length state \<and> length (vs ! k) = length state)
      \<and> ps ! 0 = map position (view (heap w) state)
      \<and> vs ! 0 = map velocity (view (heap w) state)"
    by blast
next
  fix q
  assume q: "true_div duration dt = Inr (Some q)" and q0: "0 \<le> \<lceil>q\<rceil>" and ne: "state \<noteq> []"
    and fok: "\<forall>sys. length sys = length state \<longrightarrow>
       (\<exists>a. acceleration_fn sys precession_config = Inr a \<and> length a = length state)"
  from q have nN: "n_steps_of duration dt = Inr \<lceil>q\<rceil>"
    unfolding n_steps_of_Inr by blast
  have "\<exists>ps vs w'.
      leapfrog state duration dt acceleration_fn precession_config w = (Inr (ps, vs), w')"
    by (rule leapfrog_total[where f = acceleration_fn and cfg = precession_config,
          OF nN q0 ne fok])
  moreover have "\<exists>ps vs w'.
      rk4 state duration dt acceleration_fn precession_config w = (Inr (ps, vs), w')"
    by (rule rk4_total[where f = acceleration_fn and cfg = precession_config,
          OF nN q0 ne fok])
  ultimately show "\<exists>ps vs w'.
      integrator state duration dt acceleration_fn precession_config w = (Inr (ps, vs), w')"
    using assms by blast
qed

lemma compute_accelerations_total:
  "length sys = Suc n \<Longrightarrow> \<exists>a. compute_accelerations sys None = Inr a \<and> length a = Suc n"
  using compute_pairwise_gravity_state[of sys] compute_accelerations_gravity[of sys]
  by (cases sys) auto

text \<open>
  One body under gravity alone, \<open>duration = 3.0\<close> and \<open>dt = 0.3\<close>: leapfrog returns 11
  snapshots, as it does in Python, not 12.
\<close>

theorem integrator_snapshots_witness:
  "\<exists>ps vs w'. leapfrog
       [\<lparr>name = ''Star'', mass = 1, position = 0, velocity = 1, color = ''orange''\<rparr>]
       3 three_tenths compute_accelerations None \<lparr>heap = [(0, 0), (1, 0)], evals = []\<rparr>
         = (Inr (ps, vs), w')
     \<and> length ps = 11 \<and> length vs = 11 \<and> ps ! 0 = [(0, 0)] \<and> vs ! 0 = [(1, 0)]"
proof -
  let ?s = "[\<lparr>name = ''Star'', mass = 1, position = 0::nat, velocity = 1::nat, color = ''orange''\<rparr>]"
  let ?w = "\<lparr>heap = [(0, 0), (1, 0)], evals = []\<rparr>"
  note t = integrator_snapshots [of leapfrog ?s 3 three_tenths compute_accelerations None ?w]
  have fok: "\<forall>sys. length sys = length ?s \<longrightarrow>
      (\<exists>a. compute_accelerations sys None = Inr a \<and> length a = length ?s)"
    using compute_accelerations_total[of _ 0] by simp
  have c: "(0::int) \<le> \<lceil>10::real\<rceil>" "?s \<noteq> []" by simp_all
  from t true_div_three_tenths c fok obtain ps vs w' where
    run: "leapfrog ?s 3 three_tenths compute_accelerations None ?w = (Inr (ps, vs), w')"
    by blast
  with t have "\<exists>q. true_div 3 three_tenths = Inr (Some q)
      \<and> length ps = nat \<lceil>q\<rceil> + 1 \<and> length vs = nat \<lceil>q\<rceil> + 1
      \<and> (\<forall>k < nat \<lceil>q\<rceil> + 1. length (ps ! k) = length ?s \<and> length (vs ! k) = length ?s)
      \<and> ps ! 0 = map position (view (heap ?w) ?s)
      \<and> vs ! 0 = map velocity (view (heap ?w) ?s)"
    by blast
  then have "length ps = 11 \<and> length vs = 11 \<and> ps ! 0 = [(0, 0)] \<and> vs ! 0 = [(1, 0)]"
    unfolding true_div_three_tenths by (simp add: view_def body_view_def)
  with run show ?thesis by blast
qed

text \<open>
  Not every step size gives a trajectory: with \<open>dt = 0\<close> the division raises, in both
  integrators, and nothing is returned.
\<close>

theorem integrator_snapshots_counterexample:
  "leapfrog [\<lparr>name = ''Star'', mass = 1, position = 0, velocity = 1, color = ''orange''\<rparr>]
       1 0 compute_accelerations None \<lparr>heap = [(0, 0), (1, 0)], evals = []\<rparr>
     = (Inl ZeroDivisionError, \<lparr>heap = [(0, 0), (1, 0)], evals = []\<rparr>)
   \<and> rk4 [\<lparr>name = ''Star'', mass = 1, position = 0, velocity = 1, color = ''orange''\<rparr>]
       1 0 compute_accelerations None \<lparr>heap = [(0, 0), (1, 0)], evals = []\<rparr>
     = (Inl ZeroDivisionError, \<lparr>heap = [(0, 0), (1, 0)], evals = []\<rparr>)"
  by (simp add: leapfrog_raises[OF n_steps_of_zero] rk4_raises[OF n_steps_of_zero])

subsection \<open>Reading a state back after an update\<close>

lemma smul_smul: "smul c (smul d v) = smul (c * d) v"
  by (simp add: smul_def)

lemma scale_scale: "scale c (scale d xs) = scale (c * d) xs"
  by (simp add: scale_def smul_smul)

lemma with_arrays_view:
  "with_arrays (view h s) ps vs = with_arrays (view h2 s) ps vs"
  by (simp add: with_arrays_def view_def body_view_def zip_map1 split_def)

lemma update_heap_other:
  "a \<notin> set (addresses s) \<Longrightarrow> update_heap s ps vs h ! a = h ! a"
  by (induction s ps vs h rule: update_heap.induct) (simp_all add: addresses_def)

lemma view_update_heap:
  "distinct (addresses s) \<Longrightarrow> \<forall>a \<in> set (addresses s). a < length h \<Longrightarrow>
     length ps = length s \<Longrightarrow> length vs = length s \<Longrightarrow>
     view (update_heap s ps vs h) s = with_arrays (view h s) ps vs"
proof (induction s ps vs h rule: update_heap.induct)
  case (1 b bs p ps v vs h)
  let ?h1 = "h[position b := p, velocity b := v]"
  have d: "position b \<noteq> velocity b" "position b \<notin> set (addresses bs)"
    "velocity b \<notin> set (addresses bs)" "distinct (addresses bs)"
    using "1.prems"(1) by (auto simp: addresses_def)
  have l: "position b < length h" "velocity b < length h"
    "\<forall>a \<in> set (addresses bs). a < length ?h1"
    using "1.prems"(2) by (auto simp: addresses_def)
  have ih: "view (update_heap bs ps vs ?h1) bs = with_arrays (view ?h1 bs) ps vs"
    using "1.IH"[OF d(4) l(3)] "1.prems"(3,4) by simp
  have hd: "body_view (update_heap bs ps vs ?h1) b
      = \<lparr>name = name b, mass = mass b, position = p, velocity = v, color = color b\<rparr>"
    using d l by (simp add: body_view_def update_heap_other)
  show ?case
    using ih hd with_arrays_view[of ?h1 bs ps vs h]
    by (simp add: view_def with_arrays_def body_view_def)
qed (simp_all add: view_def with_arrays_def)

lemma copy_bodies_view:
  "copy_bodies s h = (s', h') \<Longrightarrow> \<forall>x \<in> set (addresses s). x < length h \<Longrightarrow>
     length h' = length h + 2 * length s
     \<and> addresses s' = [length h ..< length h + 2 * length s]
     \<and> view h' s' = view h s
     \<and> take (length h) h' = h"
proof (induction s arbitrary: h s' h')
  case Nil
  then show ?case by (simp add: addresses_def view_def)
next
  case (Cons b bs)
  let ?h1 = "h @ [h ! position b, h ! velocity b]"
  obtain bs' h2 where rec: "copy_bodies bs ?h1 = (bs', h2)"
    by (cases "copy_bodies bs ?h1")
  from Cons.prems(2) have valid: "\<forall>x \<in> set (addresses bs). x < length h"
    by (simp add: addresses_def)
  then have valid1: "\<forall>x \<in> set (addresses bs). x < length ?h1" by auto
  from Cons.IH[OF rec valid1] have ih:
    "length h2 = length h + 2 + 2 * length bs"
    "addresses bs' = [length h + 2 ..< length h + 2 + 2 * length bs]"
    "view h2 bs' = view ?h1 bs" "take (length h + 2) h2 = ?h1"
    by simp_all
  from Cons.prems rec have s': "s' = \<lparr>name = name b, mass = mass b, position = length h,
      velocity = length h + 1, color = color b\<rparr> # bs'" and h': "h' = h2"
    by (auto simp: body_copy_def)
  have cells: "h2 ! length h = h ! position b" "h2 ! (length h + 1) = h ! velocity b"
  proof -
    have "h2 ! length h = take (length h + 2) h2 ! length h" by simp
    also have "\<dots> = h ! position b" unfolding ih(4) by (simp add: nth_append)
    finally show "h2 ! length h = h ! position b" .
    have "h2 ! (length h + 1) = take (length h + 2) h2 ! (length h + 1)" by simp
    also have "\<dots> = h ! velocity b" unfolding ih(4) by (simp add: nth_append)
    finally show "h2 ! (length h + 1) = h ! velocity b" .
  qed
  have t: "take (length h) h2 = h"
  proof -
    have "take (length h) h2 = take (length h) (take (length h + 2) h2)" by (simp add: min_def)
    also have "\<dots> = h" unfolding ih(4) by simp
    finally show ?thesis .
  qed
  have old: "view ?h1 bs = view h bs"
    using valid by (auto simp: view_def body_view_def addresses_def nth_append)
  have a: "addresses s' = [length h ..< length h + 2 * length (b # bs)]"
  proof -
    let ?e = "length h + 2 + 2 * length bs"
    have e0: "length h + 2 * length (b # bs) = ?e" by simp
    have e1: "[length h ..< ?e] = length h # [Suc (length h) ..< ?e]"
      by (rule upt_conv_Cons) simp
    have e2: "[Suc (length h) ..< ?e] = Suc (length h) # [Suc (Suc (length h)) ..< ?e]"
      by (rule upt_conv_Cons) simp
    have e3: "addresses s' = length h # Suc (length h) # addresses bs'"
      using s' by (simp add: addresses_def)
    show ?thesis unfolding e0 e1 e2 e3 ih(2) by simp
  qed
  show ?case using ih(1) a t h' s' cells ih(3) old
    by (simp add: view_def body_view_def)
qed

subsection \<open>One leapfrog step\<close>

lemma length_with_arrays [simp]:
  "length ps = length sys \<Longrightarrow> length vs = length sys \<Longrightarrow> length (with_arrays sys ps vs) = length sys"
  by (simp add: with_arrays_def)

lemma length_leapfrog_position [simp]:
  "length p = n \<Longrightarrow> length v = n \<Longrightarrow> length a = n \<Longrightarrow> length (leapfrog_position dt p v a) = n"
  by (simp add: leapfrog_position_def)

lemma length_leapfrog_velocity [simp]:
  "length v = n \<Longrightarrow> length a = n \<Longrightarrow> length a' = n \<Longrightarrow> length (leapfrog_velocity dt v a a') = n"
  by (simp add: leapfrog_velocity_def)

lemma evaluate_Inr:
  "evaluate f s cfg w = (Inr a, w') \<longleftrightarrow>
     f (view (heap w) s) cfg = Inr a \<and> w' = w\<lparr>evals := evals w @ [view (heap w) s]\<rparr>"
  by (auto simp: evaluate_def Let_def)

lemma update_Inr:
  "update s ps vs w = (Inr u, w') \<longleftrightarrow> w' = w\<lparr>heap := update_heap s ps vs (heap w)\<rparr>"
  by (auto simp: update_def)

lemma leapfrog_step_char:
  assumes st: "leapfrog_step f cfg dt temp n step (ps, vs, a) w = (Inr (ps', vs', a'), w')"
    and shape: "\<forall>sys r. f sys cfg = Inr r \<longrightarrow> length r = length sys"
    and len: "length (ps ! (step - 1)) = n" "length (vs ! (step - 1)) = n" "length a = n"
      "length temp = n"
    and wf: "distinct (addresses temp)" "\<forall>x \<in> set (addresses temp). x < length (heap w)"
  shows "ps' = ps[step := leapfrog_position dt (ps ! (step - 1)) (vs ! (step - 1)) a]
       \<and> vs' = vs[step := leapfrog_velocity dt (vs ! (step - 1)) a a']
       \<and> length a' = n
       \<and> f (with_arrays (view (heap w) temp)
               (leapfrog_position dt (ps ! (step - 1)) (vs ! (step - 1)) a) (vs ! (step - 1))) cfg
           = Inr a'
       \<and> evals w' = evals w @ [with_arrays (view (heap w) temp)
               (leapfrog_position dt (ps ! (step - 1)) (vs ! (step - 1)) a) (vs ! (step - 1))]
       \<and> length (heap w') = length (heap w)
       \<and> step < length ps \<and> step < length vs"
proof -
  define p where "p = ps ! (step - 1)"
  define v where "v = vs ! (step - 1)"
  define P where "P = leapfrog_position dt p v a"
  define E where "E = with_arrays (view (heap w) temp) P v"
  define h1 where "h1 = update_heap temp P v (heap w)"
  have len': "length p = n" "length v = n" using len by (simp_all add: p_def v_def)
  have P: "np_add p (scale dt v) = Inr (map2 vadd p (scale dt v))"
    "np_add (map2 vadd p (scale dt v)) (scale dt (scale dt (scale 0.5 a))) = Inr P"
    using len' len(3)
    by (simp_all add: np_add_same leapfrog_position_def P_def scale_scale power2_eq_square
          mult.commute)
  have lP: "length P = n" using len' len(3) by (simp add: P_def)
  have E: "view h1 temp = E"
    using view_update_heap[OF wf, of P v] lP len' len(4) by (simp add: h1_def E_def)
  from st have "seq (update temp P v) (\<lambda>_.
      seq (evaluate f temp cfg) (\<lambda>new_accel.
      seq (lift (np_add a new_accel)) (\<lambda>accel_sum.
      seq (lift (np_add v (scale dt (scale 0.5 accel_sum)))) (\<lambda>new_velocities.
      seq (lift (store ps n step P)) (\<lambda>positions'.
      seq (lift (store vs n step new_velocities)) (\<lambda>velocities'.
      returns (positions', velocities', new_accel))))))) w = (Inr (ps', vs', a'), w')"
    unfolding leapfrog_step_def prod.case p_def[symmetric] v_def[symmetric] P seq_lift_Inr .
  then have "seq (evaluate f temp cfg) (\<lambda>new_accel.
      seq (lift (np_add a new_accel)) (\<lambda>accel_sum.
      seq (lift (np_add v (scale dt (scale 0.5 accel_sum)))) (\<lambda>new_velocities.
      seq (lift (store ps n step P)) (\<lambda>positions'.
      seq (lift (store vs n step new_velocities)) (\<lambda>velocities'.
      returns (positions', velocities', new_accel)))))) (w\<lparr>heap := h1\<rparr>)
        = (Inr (ps', vs', a'), w')"
    unfolding seq_update h1_def .
  then have ev: "\<exists>accel_sum new_velocities.
      f E cfg = Inr a' \<and> w' = w\<lparr>heap := h1, evals := evals w @ [E]\<rparr>
      \<and> np_add a a' = Inr accel_sum
      \<and> np_add v (scale dt (scale 0.5 accel_sum)) = Inr new_velocities
      \<and> store ps n step P = Inr ps' \<and> store vs n step new_velocities = Inr vs'"
    by (simp add: seq_Inr_iff evaluate_Inr E) metis
  then obtain accel_sum new_velocities where
    f: "f E cfg = Inr a'" and w': "w' = w\<lparr>heap := h1, evals := evals w @ [E]\<rparr>"
    and s1: "np_add a a' = Inr accel_sum"
    and s2: "np_add v (scale dt (scale 0.5 accel_sum)) = Inr new_velocities"
    and s3: "store ps n step P = Inr ps'" and s4: "store vs n step new_velocities = Inr vs'"
    by blast
  have lE: "length E = n" using lP len' len(4) by (simp add: E_def)
  have la: "length a' = n" using shape f lE by blast
  have as: "accel_sum = map2 vadd a a'" using s1 la len(3) by (simp add: np_add_same)
  have V: "new_velocities = leapfrog_velocity dt v a a'"
    using s2 la len' len(3) unfolding as
    by (simp add: np_add_same leapfrog_velocity_def scale_scale mult.commute)
  have k: "step < length ps" "step < length vs"
    using s3 s4 by (auto simp: store_def split: if_splits)
  have "ps' = ps[step := P]" using s3 k lP by (simp add: store_same)
  moreover have "vs' = vs[step := leapfrog_velocity dt v a a']"
    using s4 k la len' len(3) unfolding V by (simp add: store_same)
  moreover have "length (heap w') = length (heap w)" by (simp add: w' h1_def)
  ultimately show ?thesis
    using la f w' k unfolding E_def P_def p_def v_def by simp
qed

subsection \<open>The leapfrog loop\<close>

lemma leapfrog_loop_char:
  assumes shape: "\<forall>sys r. f sys cfg = Inr r \<longrightarrow> length r = length sys"
    and lt: "length temp = n" and dist: "distinct (addresses temp)"
  shows "leapfrog_loop f cfg dt temp n [Suc j ..< Suc N] (ps, vs, a) w = (Inr (ps', vs', a'), w')
     \<Longrightarrow> j \<le> N \<Longrightarrow> length ps = Suc N \<Longrightarrow> length vs = Suc N
     \<Longrightarrow> length (ps ! j) = n \<Longrightarrow> length (vs ! j) = n \<Longrightarrow> length a = n
     \<Longrightarrow> \<forall>x \<in> set (addresses temp). x < length (heap w)
     \<Longrightarrow> \<exists>acc. acc j = a \<and> length ps' = Suc N \<and> length vs' = Suc N
           \<and> (\<forall>k \<le> j. ps' ! k = ps ! k \<and> vs' ! k = vs ! k)
           \<and> (\<forall>k. j < k \<and> k \<le> N \<longrightarrow>
                 ps' ! k = leapfrog_position dt (ps' ! (k - 1)) (vs' ! (k - 1)) (acc (k - 1))
               \<and> f (with_arrays (view (heap w) temp) (ps' ! k) (vs' ! (k - 1))) cfg = Inr (acc k)
               \<and> vs' ! k = leapfrog_velocity dt (vs' ! (k - 1)) (acc (k - 1)) (acc k))
           \<and> evals w' = evals w @ map (\<lambda>k. with_arrays (view (heap w) temp) (ps' ! k) (vs' ! (k - 1)))
                                    [Suc j ..< Suc N]"
proof (induction "N - j" arbitrary: j ps vs a w)
  case 0
  then have "j = N" by simp
  with "0.prems"(1) have "ps' = ps" "vs' = vs" "w' = w" by simp_all
  with \<open>j = N\<close> "0.prems"(3,4) show ?case
    by (intro exI[of _ "\<lambda>_. a"]) auto
next
  case (Suc d)
  then have jN: "j < N" by simp
  have l: "[Suc j ..< Suc N] = Suc j # [Suc (Suc j) ..< Suc N]"
    using jN by (simp add: upt_conv_Cons)
  from Suc.prems(1) have "\<exists>ps1 vs1 a1 w1.
      leapfrog_step f cfg dt temp n (Suc j) (ps, vs, a) w = (Inr (ps1, vs1, a1), w1)
      \<and> leapfrog_loop f cfg dt temp n [Suc (Suc j) ..< Suc N] (ps1, vs1, a1) w1
          = (Inr (ps', vs', a'), w')"
    unfolding l by (auto simp: seq_Inr_iff)
  then obtain ps1 vs1 a1 w1 where
    st: "leapfrog_step f cfg dt temp n (Suc j) (ps, vs, a) w = (Inr (ps1, vs1, a1), w1)"
    and rest: "leapfrog_loop f cfg dt temp n [Suc (Suc j) ..< Suc N] (ps1, vs1, a1) w1
          = (Inr (ps', vs', a'), w')"
    by blast
  define P where "P = leapfrog_position dt (ps ! j) (vs ! j) a"
  define V where "V = leapfrog_velocity dt (vs ! j) a a1"
  define E where "E = with_arrays (view (heap w) temp) P (vs ! j)"
  have c: "ps1 = ps[Suc j := P]" "vs1 = vs[Suc j := V]" "length a1 = n" "f E cfg = Inr a1"
    "evals w1 = evals w @ [E]" "length (heap w1) = length (heap w)"
    using leapfrog_step_char[OF st shape _ _ Suc.prems(7) lt dist Suc.prems(8)] Suc.prems(5,6)
    by (simp_all add: P_def V_def E_def)
  have lP: "length P = n" "length V = n"
    using Suc.prems(5,6,7) c(3) by (simp_all add: P_def V_def)
  have sj: "Suc j < length ps" "Suc j < length vs" using jN Suc.prems(3,4) by simp_all
  have "\<exists>acc. acc (Suc j) = a1 \<and> length ps' = Suc N \<and> length vs' = Suc N
           \<and> (\<forall>k \<le> Suc j. ps' ! k = ps1 ! k \<and> vs' ! k = vs1 ! k)
           \<and> (\<forall>k. Suc j < k \<and> k \<le> N \<longrightarrow>
                 ps' ! k = leapfrog_position dt (ps' ! (k - 1)) (vs' ! (k - 1)) (acc (k - 1))
               \<and> f (with_arrays (view (heap w1) temp) (ps' ! k) (vs' ! (k - 1))) cfg = Inr (acc k)
               \<and> vs' ! k = leapfrog_velocity dt (vs' ! (k - 1)) (acc (k - 1)) (acc k))
           \<and> evals w' = evals w1 @ map (\<lambda>k. with_arrays (view (heap w1) temp) (ps' ! k) (vs' ! (k - 1)))
                                    [Suc (Suc j) ..< Suc N]"
  proof (rule Suc.hyps(1))
    show "d = N - Suc j" using Suc.hyps(2) by simp
    show "leapfrog_loop f cfg dt temp n [Suc (Suc j) ..< Suc N] (ps1, vs1, a1) w1
          = (Inr (ps', vs', a'), w')" by (rule rest)
    show "Suc j \<le> N" using jN by simp
    show "length ps1 = Suc N" "length vs1 = Suc N" using c(1,2) Suc.prems(3,4) by simp_all
    show "length (ps1 ! Suc j) = n" "length (vs1 ! Suc j) = n" using c(1,2) sj lP by simp_all
    show "length a1 = n" by (rule c(3))
    show "\<forall>x \<in> set (addresses temp). x < length (heap w1)" using Suc.prems(8) c(6) by simp
  qed
  then obtain acc' where
    a0: "acc' (Suc j) = a1" and lens: "length ps' = Suc N" "length vs' = Suc N"
    and keep: "\<forall>k \<le> Suc j. ps' ! k = ps1 ! k \<and> vs' ! k = vs1 ! k"
    and later: "\<forall>k. Suc j < k \<and> k \<le> N \<longrightarrow>
                 ps' ! k = leapfrog_position dt (ps' ! (k - 1)) (vs' ! (k - 1)) (acc' (k - 1))
               \<and> f (with_arrays (view (heap w1) temp) (ps' ! k) (vs' ! (k - 1))) cfg = Inr (acc' k)
               \<and> vs' ! k = leapfrog_velocity dt (vs' ! (k - 1)) (acc' (k - 1)) (acc' k)"
    and ev: "evals w' = evals w1 @ map (\<lambda>k. with_arrays (view (heap w1) temp) (ps' ! k) (vs' ! (k - 1)))
                                    [Suc (Suc j) ..< Suc N]"
    by blast
  define acc where "acc = acc'(j := a)"
  have wa: "with_arrays (view (heap w1) temp) X Y = with_arrays (view (heap w) temp) X Y" for X Y
    by (rule with_arrays_view)
  have old: "ps' ! k = ps ! k \<and> vs' ! k = vs ! k" if "k \<le> j" for k
    using keep that c(1,2) by simp
  have new: "ps' ! Suc j = P" "vs' ! Suc j = V"
    using keep c(1,2) sj by simp_all
  have step_j: "ps' ! Suc j = leapfrog_position dt (ps' ! j) (vs' ! j) (acc j)"
    "f (with_arrays (view (heap w) temp) (ps' ! Suc j) (vs' ! j)) cfg = Inr (acc (Suc j))"
    "vs' ! Suc j = leapfrog_velocity dt (vs' ! j) (acc j) (acc (Suc j))"
    using new old[of j] c(4) a0 by (simp_all add: acc_def P_def V_def E_def)
  have all: "ps' ! k = leapfrog_position dt (ps' ! (k - 1)) (vs' ! (k - 1)) (acc (k - 1))
               \<and> f (with_arrays (view (heap w) temp) (ps' ! k) (vs' ! (k - 1))) cfg = Inr (acc k)
               \<and> vs' ! k = leapfrog_velocity dt (vs' ! (k - 1)) (acc (k - 1)) (acc k)"
    if "j < k" "k \<le> N" for k
  proof (cases "k = Suc j")
    case True
    then show ?thesis using step_j by simp
  next
    case False
    with that have k: "Suc j < k" by simp
    then have "k - 1 \<noteq> j" "k \<noteq> j" by arith+
    then have e: "acc (k - 1) = acc' (k - 1)" "acc k = acc' k" by (simp_all add: acc_def)
    from later k that(2) have
      "ps' ! k = leapfrog_position dt (ps' ! (k - 1)) (vs' ! (k - 1)) (acc' (k - 1))
       \<and> f (with_arrays (view (heap w1) temp) (ps' ! k) (vs' ! (k - 1))) cfg = Inr (acc' k)
       \<and> vs' ! k = leapfrog_velocity dt (vs' ! (k - 1)) (acc' (k - 1)) (acc' k)"
      by blast
    then show ?thesis unfolding e wa .
  qed
  have "evals w' = evals w @ map (\<lambda>k. with_arrays (view (heap w) temp) (ps' ! k) (vs' ! (k - 1)))
                                    [Suc j ..< Suc N]"
    unfolding ev c(5) l using new old[of j] by (simp add: wa E_def)
  moreover have "acc j = a" by (simp add: acc_def)
  ultimately show ?case using lens old all by blast
qed

subsection \<open>The order of a leapfrog step\<close>

text \<open>
  Claim C3. Take a run of \<open>leapfrog\<close> that returns, on a state whose arrays exist, with
  an acceleration function that returns one row per body. There are accelerations
  \<open>a 0, a 1, \<dots>\<close> such that \<open>a 0\<close> is the acceleration of the initial state and, for every
  step \<open>k\<close> from 1 to the number of steps (the ceiling of the quotient \<open>duration / dt\<close> as
  Python computes it): \<open>position[k]\<close> is computed from
  \<open>position[k-1]\<close>, \<open>velocity[k-1]\<close> and \<open>a (k-1)\<close>; \<open>a k\<close> is the acceleration of the state
  with the positions \<open>position[k]\<close> and the velocities \<open>velocity[k-1]\<close>; and \<open>velocity[k]\<close> is
  computed from \<open>velocity[k-1]\<close>, \<open>a (k-1)\<close> and \<open>a k\<close>. The acceleration function was
  evaluated on the initial state and then once per step, on exactly these states, in
  this order, and on no other.
\<close>

theorem leapfrog_step_order:
  assumes run: "leapfrog state duration dt acceleration_fn precession_config w = (Inr (ps, vs), w')"
    and shape: "\<forall>sys r. acceleration_fn sys precession_config = Inr r \<longrightarrow> length r = length sys"
    and valid: "\<forall>b \<in> set state. position b < length (heap w) \<and> velocity b < length (heap w)"
  shows "\<exists>a q. true_div duration dt = Inr (Some q)
     \<and> acceleration_fn (view (heap w) state) precession_config = Inr (a 0)
     \<and> (\<forall>k. 1 \<le> k \<and> k \<le> nat \<lceil>q\<rceil> \<longrightarrow>
           ps ! k = leapfrog_position dt (ps ! (k - 1)) (vs ! (k - 1)) (a (k - 1))
         \<and> acceleration_fn (with_arrays (view (heap w) state) (ps ! k) (vs ! (k - 1)))
               precession_config = Inr (a k)
         \<and> vs ! k = leapfrog_velocity dt (vs ! (k - 1)) (a (k - 1)) (a k))
     \<and> evals w' = evals w @ view (heap w) state
           # map (\<lambda>k. with_arrays (view (heap w) state) (ps ! k) (vs ! (k - 1)))
               [1 ..< nat \<lceil>q\<rceil> + 1]"
proof -
  from run leapfrog_raises[of duration dt _ state acceleration_fn precession_config w]
  obtain N where nN: "n_steps_of duration dt = Inr N"
    by (cases "n_steps_of duration dt") auto
  then obtain q where q: "true_div duration dt = Inr (Some q)" and Nq: "N = \<lceil>q\<rceil>"
    unfolding n_steps_of_Inr by blast
  define M where "M = nat N"
  define n where "n = length state"
  define temp where "temp = fst (copy_bodies state (heap w))"
  define h1 where "h1 = snd (copy_bodies state (heap w))"
  define view0 where "view0 = view (heap w) state"
  define P0 where "P0 = (replicate (nat (N + 1)) (replicate n (0::real, 0::real)))
                           [0 := map position view0]"
  define V0 where "V0 = (replicate (nat (N + 1)) (replicate n (0::real, 0::real)))
                           [0 := map velocity view0]"
  from run have c: "0 \<le> N" "state \<noteq> []"
    unfolding leapfrog_cases[OF nN] by (auto split: if_splits)
  then have m: "nat (N + 1) = Suc M" by (simp add: M_def)
  have va: "\<forall>x \<in> set (addresses state). x < length (heap w)"
    using valid by (auto simp: addresses_def)
  have cp: "copy_bodies state (heap w) = (temp, h1)" by (simp add: temp_def h1_def)
  from copy_bodies_view[OF cp va] have copy:
    "length h1 = length (heap w) + 2 * length state"
    "addresses temp = [length (heap w) ..< length (heap w) + 2 * length state]"
    "view h1 temp = view0"
    by (simp_all add: view0_def)
  have lt: "length temp = n" by (simp add: temp_def n_def)
  have dist: "distinct (addresses temp)" unfolding copy(2) by simp
  from run c have "\<exists>a0 w2 a'.
      evaluate acceleration_fn temp precession_config (w\<lparr>heap := h1\<rparr>) = (Inr a0, w2)
      \<and> leapfrog_loop acceleration_fn precession_config dt temp n [1 ..< nat (N + 1)] (P0, V0, a0) w2
          = (Inr (ps, vs, a'), w')"
    unfolding leapfrog_cases[OF nN] temp_def[symmetric] h1_def[symmetric] n_def[symmetric]
      view0_def[symmetric] P0_def[symmetric] V0_def[symmetric]
    by (auto simp: seq_Inr_iff split: if_splits)
  then obtain a0 w2 a' where
    ev: "evaluate acceleration_fn temp precession_config (w\<lparr>heap := h1\<rparr>) = (Inr a0, w2)"
    and loop: "leapfrog_loop acceleration_fn precession_config dt temp n [Suc 0 ..< Suc M]
                 (P0, V0, a0) w2 = (Inr (ps, vs, a'), w')"
    unfolding m by auto
  from ev have f0: "acceleration_fn view0 precession_config = Inr a0"
    and w2: "w2 = w\<lparr>heap := h1, evals := evals w @ [view0]\<rparr>"
    by (simp_all add: evaluate_Inr copy(3))
  have la: "length a0 = n" using shape f0 by (simp add: view0_def n_def)
  have l0: "length P0 = Suc M" "length V0 = Suc M" "length (P0 ! 0) = n" "length (V0 ! 0) = n"
    "P0 ! 0 = map position view0" "V0 ! 0 = map velocity view0"
    by (simp_all add: P0_def V0_def m view0_def n_def)
  have val2: "\<forall>x \<in> set (addresses temp). x < length (heap w2)"
    unfolding copy(2) w2 using copy(1) by simp
  from leapfrog_loop_char[OF shape lt dist loop _ l0(1,2,3,4) la val2]
  obtain acc where
    acc0: "acc 0 = a0"
    and form: "\<forall>k. 0 < k \<and> k \<le> M \<longrightarrow>
                 ps ! k = leapfrog_position dt (ps ! (k - 1)) (vs ! (k - 1)) (acc (k - 1))
               \<and> acceleration_fn (with_arrays (view (heap w2) temp) (ps ! k) (vs ! (k - 1)))
                     precession_config = Inr (acc k)
               \<and> vs ! k = leapfrog_velocity dt (vs ! (k - 1)) (acc (k - 1)) (acc k)"
    and evs: "evals w' = evals w2 @ map (\<lambda>k. with_arrays (view (heap w2) temp) (ps ! k) (vs ! (k - 1)))
                                    [Suc 0 ..< Suc M]"
    by auto
  have wa: "with_arrays (view (heap w2) temp) X Y = with_arrays view0 X Y" for X Y
    using with_arrays_view[of "heap w2" temp X Y h1] copy(3) by simp
  note q
  moreover have "acceleration_fn view0 precession_config = Inr (acc 0)" using f0 acc0 by simp
  moreover have "\<forall>k. 1 \<le> k \<and> k \<le> M \<longrightarrow>
                 ps ! k = leapfrog_position dt (ps ! (k - 1)) (vs ! (k - 1)) (acc (k - 1))
               \<and> acceleration_fn (with_arrays view0 (ps ! k) (vs ! (k - 1)))
                     precession_config = Inr (acc k)
               \<and> vs ! k = leapfrog_velocity dt (vs ! (k - 1)) (acc (k - 1)) (acc k)"
  proof (intro allI impI)
    fix k assume "1 \<le> k \<and> k \<le> M"
    then have "0 < k \<and> k \<le> M" by simp
    from form[unfolded wa, rule_format, OF this]
    show "ps ! k = leapfrog_position dt (ps ! (k - 1)) (vs ! (k - 1)) (acc (k - 1))
               \<and> acceleration_fn (with_arrays view0 (ps ! k) (vs ! (k - 1)))
                     precession_config = Inr (acc k)
               \<and> vs ! k = leapfrog_velocity dt (vs ! (k - 1)) (acc (k - 1)) (acc k)" .
  qed
  moreover have "evals w' = evals w @ view0
           # map (\<lambda>k. with_arrays view0 (ps ! k) (vs ! (k - 1))) [1 ..< M + 1]"
  proof -
    have "evals w2 = evals w @ [view0]" by (simp add: w2)
    with evs[unfolded wa] show ?thesis by simp
  qed
  ultimately show ?thesis
    unfolding view0_def M_def Nq by blast
qed

text \<open>A lone star moving to the right: one step takes it from \<open>(0, 0)\<close> to \<open>(1, 0)\<close>.\<close>

lemma compute_accelerations_rows:
  "compute_accelerations sys None = Inr r \<Longrightarrow> length r = length sys"
  by (auto simp: compute_accelerations_def state_positions_def compute_pairwise_gravity_def
        state_masses_def split: if_splits sum.splits)

lemma lone_body_acceleration:
  "compute_accelerations
     [\<lparr>name = nm, mass = m, position = p, velocity = v, color = c\<rparr>] None = Inr [(0, 0)]"
  by (simp add: compute_accelerations_def state_positions_def compute_pairwise_gravity_def
        state_masses_def force_row_zero_separation)

theorem leapfrog_step_order_witness:
  "\<exists>ps vs w'. leapfrog
       [\<lparr>name = ''Star'', mass = 1, position = 0, velocity = 1, color = ''orange''\<rparr>]
       1 1 compute_accelerations None \<lparr>heap = [(0, 0), (1, 0)], evals = []\<rparr> = (Inr (ps, vs), w')
     \<and> ps ! 1 = [(1, 0)] \<and> vs ! 1 = [(1, 0)] \<and> length (evals w') = 2"
proof -
  let ?s = "[\<lparr>name = ''Star'', mass = 1, position = 0::nat, velocity = 1::nat, color = ''orange''\<rparr>]"
  let ?w = "\<lparr>heap = [(0, 0), (1, 0)], evals = []\<rparr>"
  have fok: "\<forall>sys. length sys = length ?s \<longrightarrow>
      (\<exists>a. compute_accelerations sys None = Inr a \<and> length a = length ?s)"
    using compute_accelerations_total[of _ 0] by simp
  have "\<exists>ps vs w'. leapfrog ?s 1 1 compute_accelerations None ?w = (Inr (ps, vs), w')"
    by (rule leapfrog_total[where state = "?s" and f = compute_accelerations and cfg = None
          and N = 1])
      (use fok n_steps_1_1 in simp_all)
  then obtain ps vs w' where
    run: "leapfrog ?s 1 1 compute_accelerations None ?w = (Inr (ps, vs), w')"
    by blast
  from leapfrog_shape[OF run] have init: "ps ! 0 = [(0, 0)]" "vs ! 0 = [(1, 0)]"
    by (auto simp: view_def body_view_def)
  have shape: "\<forall>sys r. compute_accelerations sys None = Inr r \<longrightarrow> length r = length sys"
    using compute_accelerations_rows by blast
  have valid: "\<forall>b \<in> set ?s. position b < length (heap ?w) \<and> velocity b < length (heap ?w)"
    by simp
  from leapfrog_step_order[OF run shape valid] obtain a q where
    q: "true_div 1 1 = Inr (Some q)"
    and a0: "compute_accelerations (view (heap ?w) ?s) None = Inr (a 0)"
    and steps: "\<forall>k. 1 \<le> k \<and> k \<le> nat \<lceil>q\<rceil> \<longrightarrow>
           ps ! k = leapfrog_position 1 (ps ! (k - 1)) (vs ! (k - 1)) (a (k - 1))
         \<and> compute_accelerations (with_arrays (view (heap ?w) ?s) (ps ! k) (vs ! (k - 1))) None
             = Inr (a k)
         \<and> vs ! k = leapfrog_velocity 1 (vs ! (k - 1)) (a (k - 1)) (a k)"
    and evs: "evals w' = evals ?w @ view (heap ?w) ?s
           # map (\<lambda>k. with_arrays (view (heap ?w) ?s) (ps ! k) (vs ! (k - 1)))
               [1 ..< nat \<lceil>q\<rceil> + 1]"
    by blast
  from q have q1: "q = 1" by (simp add: true_div_1_1)
  have "(1::nat) \<le> 1 \<and> 1 \<le> nat \<lceil>q\<rceil>" by (simp add: q1)
  moreover have k: "(1::nat) - 1 = 0" by simp
  ultimately have
    st: "ps ! 1 = leapfrog_position 1 (ps ! 0) (vs ! 0) (a 0)"
      "compute_accelerations (with_arrays (view (heap ?w) ?s) (ps ! 1) (vs ! 0)) None = Inr (a 1)"
      "vs ! 1 = leapfrog_velocity 1 (vs ! 0) (a 0) (a 1)"
    using steps[rule_format, of 1] by metis+
  from evs have ev: "length (evals w') = 2" by (simp add: q1)
  from a0 have a0': "a 0 = [(0, 0)]"
    by (simp add: view_def body_view_def lone_body_acceleration)
  with st(1) init have p1: "ps ! 1 = [(1, 0)]"
    by (simp add: leapfrog_position_def scale_def smul_def vadd_def)
  with st(2) init have a1: "a 1 = [(0, 0)]"
    by (simp add: view_def body_view_def with_arrays_def lone_body_acceleration)
  with st(3) init a0' have "vs ! 1 = [(1, 0)]"
    by (simp add: leapfrog_velocity_def scale_def smul_def vadd_def)
  with run p1 ev show ?thesis by blast
qed

section \<open>Properties of the dispatcher\<close>

subsection \<open>How often an integrator evaluates the acceleration function\<close>

lemma rk4_step_evals:
  assumes "rk4_step f cfg dt temp n step vars w = (Inr r, w')"
  shows "length (evals w') = length (evals w) + 4"
  using assms unfolding rk4_step_def Let_def
  by (cases vars) (auto simp: seq_Inr_iff evaluate_Inr update_Inr)

lemma rk4_loop_evals:
  "rk4_loop f cfg dt temp n steps vars w = (Inr r, w')
     \<Longrightarrow> length (evals w') = length (evals w) + 4 * length steps"
proof (induction steps arbitrary: vars w)
  case Nil
  then show ?case by simp
next
  case (Cons step steps)
  from Cons.prems obtain x w1 where
    st: "rk4_step f cfg dt temp n step vars w = (Inr x, w1)"
    and rest: "rk4_loop f cfg dt temp n steps x w1 = (Inr r, w')"
    by (auto simp: seq_Inr_iff)
  from rk4_step_evals[OF st] Cons.IH[OF rest] show ?case by simp
qed

lemma rk4_evals:
  assumes run: "rk4 state duration dt f cfg w = (Inr r, w')"
    and nN: "n_steps_of duration dt = Inr N"
  shows "length (evals w') = length (evals w) + 4 * nat N"
proof -
  let ?w1 = "w\<lparr>heap := snd (copy_bodies state (heap w))\<rparr>"
  let ?m = "nat (N + 1)"
  let ?P = "(replicate ?m (replicate (length state) (0::real, 0::real)))
              [0 := map position (view (heap w) state)]"
  let ?V = "(replicate ?m (replicate (length state) (0::real, 0::real)))
              [0 := map velocity (view (heap w) state)]"
  from run have c: "0 \<le> N"
    unfolding rk4_cases[OF nN] by (auto split: if_splits)
  from run c have
    "rk4_loop f cfg dt (fst (copy_bodies state (heap w))) (length state) [1 ..< ?m]
          (?P, ?V) ?w1 = (Inr r, w')"
    unfolding rk4_cases[OF nN] by (auto split: if_splits)
  from rk4_loop_evals[OF this] c show ?thesis by simp
qed

lemma leapfrog_step_evals:
  assumes "leapfrog_step f cfg dt temp n step vars w = (Inr r, w')"
  shows "length (evals w') = length (evals w) + 1"
  using assms unfolding leapfrog_step_def
  by (cases vars) (auto simp: seq_Inr_iff evaluate_Inr update_Inr)

lemma leapfrog_loop_evals:
  "leapfrog_loop f cfg dt temp n steps vars w = (Inr r, w')
     \<Longrightarrow> length (evals w') = length (evals w) + length steps"
proof (induction steps arbitrary: vars w)
  case Nil
  then show ?case by simp
next
  case (Cons step steps)
  from Cons.prems obtain x w1 where
    st: "leapfrog_step f cfg dt temp n step vars w = (Inr x, w1)"
    and rest: "leapfrog_loop f cfg dt temp n steps x w1 = (Inr r, w')"
    by (auto simp: seq_Inr_iff)
  from leapfrog_step_evals[OF st] Cons.IH[OF rest] show ?case by simp
qed

lemma leapfrog_evals:
  assumes run: "leapfrog state duration dt f cfg w = (Inr r, w')"
    and nN: "n_steps_of duration dt = Inr N"
  shows "length (evals w') = length (evals w) + 1 + nat N"
proof -
  let ?w1 = "w\<lparr>heap := snd (copy_bodies state (heap w))\<rparr>"
  let ?temp = "fst (copy_bodies state (heap w))"
  let ?m = "nat (N + 1)"
  let ?P = "(replicate ?m (replicate (length state) (0::real, 0::real)))
              [0 := map position (view (heap w) state)]"
  let ?V = "(replicate ?m (replicate (length state) (0::real, 0::real)))
              [0 := map velocity (view (heap w) state)]"
  from run have c: "0 \<le> N"
    unfolding leapfrog_cases[OF nN] by (auto split: if_splits)
  from run c have "\<exists>a w2 vars.
      evaluate f ?temp cfg ?w1 = (Inr a, w2)
      \<and> leapfrog_loop f cfg dt ?temp (length state) [1 ..< ?m] (?P, ?V, a) w2 = (Inr vars, w')"
    unfolding leapfrog_cases[OF nN] by (auto simp: seq_Inr_iff split: if_splits)
  then obtain a w2 vars where
    ev: "evaluate f ?temp cfg ?w1 = (Inr a, w2)"
    and loop: "leapfrog_loop f cfg dt ?temp (length state) [1 ..< ?m] (?P, ?V, a) w2
        = (Inr vars, w')"
    by blast
  from ev have "length (evals w2) = length (evals w) + 1" by (simp add: evaluate_Inr)
  with leapfrog_loop_evals[OF loop] c show ?thesis by simp
qed

subsection \<open>The dispatcher\<close>

lemma integrate_total:
  assumes known: "lower method \<in> {''leapfrog'', ''verlet'', ''rk4''}"
    and nN: "n_steps_of duration dt = Inr N" and N0: "0 \<le> N" and ne: "state \<noteq> []"
    and fok: "\<forall>sys. length sys = length state \<longrightarrow> (\<exists>a. f sys cfg = Inr a \<and> length a = length state)"
  shows "\<exists>ps vs w'. integrate state duration dt method f cfg w = (Inr (ps, vs), w')"
proof -
  let ?temp = "fst (copy_bodies state (heap w))"
  let ?w1 = "w\<lparr>heap := snd (copy_bodies state (heap w))\<rparr>"
  have ne': "?temp \<noteq> []" using ne copy_bodies_length[of state "heap w"]
    by (metis length_0_conv)
  have fok': "\<forall>sys. length sys = length ?temp \<longrightarrow>
      (\<exists>a. f sys cfg = Inr a \<and> length a = length ?temp)"
    using fok by simp
  have l: "\<exists>ps vs w'. leapfrog ?temp duration dt f cfg ?w1 = (Inr (ps, vs), w')"
    by (rule leapfrog_total[where f = f and cfg = cfg, OF nN N0 ne' fok'])
  have r: "\<exists>ps vs w'. rk4 ?temp duration dt f cfg ?w1 = (Inr (ps, vs), w')"
    by (rule rk4_total[where f = f and cfg = cfg, OF nN N0 ne' fok'])
  from known l r show ?thesis
    by (auto simp: integrate_def map_of_integrators seq_state_copy)
qed

text \<open>
  Claim C4. \<open>integrate\<close> looks the lowercased method name up. A name whose lowercased
  form is none of the three known names makes the call fail with a \<open>ValueError\<close> whose
  message quotes the name as it was given; nothing is computed and the world is left as
  it was. A name whose lowercased form is \<open>leapfrog\<close> or \<open>verlet\<close> runs the leapfrog
  integrator on a copy of the state, one whose lowercased form is \<open>rk4\<close> runs the
  Runge-Kutta integrator on a copy of the state, and two spellings of a known name that
  differ in letter case only are the same call.
\<close>

theorem integrate_dispatch:
  "(lower method \<notin> {''leapfrog'', ''verlet'', ''rk4''} \<longrightarrow>
      integrate state duration dt method acceleration_fn precession_config w
        = (Inl (ValueError (''Unknown integration method '' @ [CHR 0x27] @ method @ [CHR 0x27] @ ''.'')), w))
   \<and> (lower method = ''leapfrog'' \<longrightarrow>
        integrate state duration dt method acceleration_fn precession_config
          = seq (state_copy state)
              (\<lambda>copied. leapfrog copied duration dt acceleration_fn precession_config))
   \<and> (lower method = ''verlet'' \<longrightarrow>
        integrate state duration dt method acceleration_fn precession_config
          = seq (state_copy state)
              (\<lambda>copied. leapfrog copied duration dt acceleration_fn precession_config))
   \<and> (lower method = ''rk4'' \<longrightarrow>
        integrate state duration dt method acceleration_fn precession_config
          = seq (state_copy state)
              (\<lambda>copied. rk4 copied duration dt acceleration_fn precession_config))
   \<and> (lower method \<in> {''leapfrog'', ''verlet'', ''rk4''} \<longrightarrow> lower method' = lower method \<longrightarrow>
        integrate state duration dt method' acceleration_fn precession_config
          = integrate state duration dt method acceleration_fn precession_config)"
  by (auto simp: integrate_def map_of_integrators raises_def unknown_method_def)

text \<open>
  A lone star, one step of size 1. The name \<open>euler\<close> is refused. \<open>RK4\<close> and \<open>rk4\<close> return the
  same trajectory of two snapshots after four evaluations of the acceleration function,
  which is one Runge-Kutta step; \<open>leapfrog\<close> returns after two evaluations, the initial
  one and the one of its single step.
\<close>

theorem integrate_dispatch_witness:
  "integrate [\<lparr>name = ''Star'', mass = 1, position = 0, velocity = 1, color = ''orange''\<rparr>]
       1 1 ''euler'' compute_accelerations None \<lparr>heap = [(0, 0), (1, 0)], evals = []\<rparr>
     = (Inl (ValueError ''Unknown integration method 'euler'.''),
        \<lparr>heap = [(0, 0), (1, 0)], evals = []\<rparr>)
   \<and> (\<exists>ps vs w'.
        integrate [\<lparr>name = ''Star'', mass = 1, position = 0, velocity = 1, color = ''orange''\<rparr>]
          1 1 ''RK4'' compute_accelerations None \<lparr>heap = [(0, 0), (1, 0)], evals = []\<rparr>
          = (Inr (ps, vs), w')
        \<and> integrate [\<lparr>name = ''Star'', mass = 1, position = 0, velocity = 1, color = ''orange''\<rparr>]
          1 1 ''rk4'' compute_accelerations None \<lparr>heap = [(0, 0), (1, 0)], evals = []\<rparr>
          = (Inr (ps, vs), w')
        \<and> length ps = 2 \<and> length (evals w') = 4)
   \<and> (\<exists>ps vs w'.
        integrate [\<lparr>name = ''Star'', mass = 1, position = 0, velocity = 1, color = ''orange''\<rparr>]
          1 1 ''leapfrog'' compute_accelerations None \<lparr>heap = [(0, 0), (1, 0)], evals = []\<rparr>
          = (Inr (ps, vs), w')
        \<and> length ps = 2 \<and> length (evals w') = 2)"
proof -
  let ?s = "[\<lparr>name = ''Star'', mass = 1, position = 0::nat, velocity = 1::nat, color = ''orange''\<rparr>]"
  let ?w = "\<lparr>heap = [(0, 0), (1, 0)], evals = []\<rparr>"
  let ?temp = "fst (copy_bodies ?s (heap ?w))"
  let ?w1 = "?w\<lparr>heap := snd (copy_bodies ?s (heap ?w))\<rparr>"
  note t = integrate_dispatch [where state = ?s and duration = 1 and dt = 1
      and acceleration_fn = compute_accelerations and precession_config = None and w = ?w]
  have fok: "\<forall>sys. length sys = length ?s \<longrightarrow>
      (\<exists>a. compute_accelerations sys None = Inr a \<and> length a = length ?s)"
    using compute_accelerations_total[of _ 0] by simp
  have known: "lower ''RK4'' \<in> {''leapfrog'', ''verlet'', ''rk4''}"
    "lower ''leapfrog'' \<in> {''leapfrog'', ''verlet'', ''rk4''}"
    by (simp_all add: lower_RK4 lower_leapfrog)
  have "\<exists>ps vs w'. integrate ?s 1 1 ''RK4'' compute_accelerations None ?w = (Inr (ps, vs), w')"
    by (rule integrate_total[where f = compute_accelerations and cfg = None and N = 1,
          OF known(1) n_steps_1_1 _ _ fok]) simp_all
  then obtain ps vs w' where
    run: "integrate ?s 1 1 ''RK4'' compute_accelerations None ?w = (Inr (ps, vs), w')"
    by blast
  from t [of "''RK4''"] lower_RK4
  have "integrate ?s 1 1 ''RK4'' compute_accelerations None
      = seq (state_copy ?s) (\<lambda>copied. rk4 copied 1 1 compute_accelerations None)"
    by simp
  with run have r: "rk4 ?temp 1 1 compute_accelerations None ?w1 = (Inr (ps, vs), w')"
    by (simp only: seq_state_copy)
  from t [of "''RK4''" "''rk4''"] lower_RK4 lower_rk4
  have "integrate ?s 1 1 ''rk4'' compute_accelerations None
      = integrate ?s 1 1 ''RK4'' compute_accelerations None"
    by simp
  with run have run': "integrate ?s 1 1 ''rk4'' compute_accelerations None ?w = (Inr (ps, vs), w')"
    by simp
  from rk4_evals[OF r n_steps_1_1] have ev: "length (evals w') = 4" by simp
  from rk4_shape[OF r] n_steps_1_1 have "length ps = 2" by auto
  with run run' ev have rk:
    "\<exists>ps vs w'. integrate ?s 1 1 ''RK4'' compute_accelerations None ?w = (Inr (ps, vs), w')
        \<and> integrate ?s 1 1 ''rk4'' compute_accelerations None ?w = (Inr (ps, vs), w')
        \<and> length ps = 2 \<and> length (evals w') = 4"
    by blast
  have "\<exists>ps vs w'. integrate ?s 1 1 ''leapfrog'' compute_accelerations None ?w = (Inr (ps, vs), w')"
    by (rule integrate_total[where f = compute_accelerations and cfg = None and N = 1,
          OF known(2) n_steps_1_1 _ _ fok]) simp_all
  then obtain ps2 vs2 w2 where
    run2: "integrate ?s 1 1 ''leapfrog'' compute_accelerations None ?w = (Inr (ps2, vs2), w2)"
    by blast
  from t [of "''leapfrog''"] lower_leapfrog
  have "integrate ?s 1 1 ''leapfrog'' compute_accelerations None
      = seq (state_copy ?s) (\<lambda>copied. leapfrog copied 1 1 compute_accelerations None)"
    by simp
  with run2 have l: "leapfrog ?temp 1 1 compute_accelerations None ?w1 = (Inr (ps2, vs2), w2)"
    by (simp only: seq_state_copy)
  from leapfrog_evals[OF l n_steps_1_1] have ev2: "length (evals w2) = 2" by simp
  from leapfrog_shape[OF l] n_steps_1_1 have "length ps2 = 2" by auto
  with run2 ev2 have lf:
    "\<exists>ps vs w'. integrate ?s 1 1 ''leapfrog'' compute_accelerations None ?w = (Inr (ps, vs), w')
        \<and> length ps = 2 \<and> length (evals w') = 2"
    by blast
  from t [of "''euler''"] lower_euler
  have "integrate ?s 1 1 ''euler'' compute_accelerations None ?w
     = (Inl (ValueError ''Unknown integration method 'euler'.''), ?w)"
    by simp
  with rk lf show ?thesis by blast
qed

text \<open>
  Claim C10, as the code has it. A method name that is \<open>verlet\<close> in any letter case is
  accepted by the dispatcher: the lookup yields the leapfrog integrator, and the call is
  the same computation, with the same outcome, as the call with the name \<open>leapfrog\<close>. The
  call returns, and returns the arrays of the \<open>leapfrog\<close> call, when \<open>dt\<close> is not zero, the
  quotient \<open>duration / dt\<close> as Python computes it is finite with a ceiling that is not
  negative, the state has at least one body, and the acceleration function, on every
  state with as many bodies, returns one row per body.
\<close>

theorem integrate_verlet_alias:
  assumes "lower method = ''verlet''"
  shows "map_of integrators (lower method) = Some leapfrog
     \<and> integrate state duration dt method acceleration_fn precession_config
         = integrate state duration dt ''leapfrog'' acceleration_fn precession_config
     \<and> integrate state duration dt method acceleration_fn precession_config
         = seq (state_copy state)
             (\<lambda>copied. leapfrog copied duration dt acceleration_fn precession_config)
     \<and> (\<forall>q. true_div duration dt = Inr (Some q) \<longrightarrow> 0 \<le> \<lceil>q\<rceil> \<longrightarrow> state \<noteq> [] \<longrightarrow>
          (\<forall>sys. length sys = length state \<longrightarrow>
             (\<exists>a. acceleration_fn sys precession_config = Inr a \<and> length a = length state)) \<longrightarrow>
          (\<exists>ps vs w'.
             integrate state duration dt method acceleration_fn precession_config w
               = (Inr (ps, vs), w')
           \<and> integrate state duration dt ''leapfrog'' acceleration_fn precession_config w
               = (Inr (ps, vs), w')))"
proof (intro conjI allI impI)
  show "map_of integrators (lower method) = Some leapfrog"
    using assms by (simp add: map_of_integrators)
  show eq: "integrate state duration dt method acceleration_fn precession_config
         = integrate state duration dt ''leapfrog'' acceleration_fn precession_config"
    using assms by (simp add: integrate_def map_of_integrators lower_leapfrog)
  show "integrate state duration dt method acceleration_fn precession_config
         = seq (state_copy state)
             (\<lambda>copied. leapfrog copied duration dt acceleration_fn precession_config)"
    using assms by (simp add: integrate_def map_of_integrators)
  fix q
  assume q: "true_div duration dt = Inr (Some q)" and q0: "0 \<le> \<lceil>q\<rceil>" and ne: "state \<noteq> []"
    and fok: "\<forall>sys. length sys = length state \<longrightarrow>
       (\<exists>a. acceleration_fn sys precession_config = Inr a \<and> length a = length state)"
  from q have nN: "n_steps_of duration dt = Inr \<lceil>q\<rceil>"
    unfolding n_steps_of_Inr by blast
  have known: "lower method \<in> {''leapfrog'', ''verlet'', ''rk4''}" using assms by simp
  have "\<exists>ps vs w'.
      integrate state duration dt method acceleration_fn precession_config w = (Inr (ps, vs), w')"
    by (rule integrate_total[where f = acceleration_fn and cfg = precession_config,
          OF known nN q0 ne fok])
  with eq show "\<exists>ps vs w'.
      integrate state duration dt method acceleration_fn precession_config w = (Inr (ps, vs), w')
      \<and> integrate state duration dt ''leapfrog'' acceleration_fn precession_config w
          = (Inr (ps, vs), w')"
    by auto
qed

text \<open>The spelling \<open>VeRLeT\<close>, a lone star, one step of size 1.\<close>

theorem integrate_verlet_alias_witness:
  "\<exists>ps vs w'.
     integrate [\<lparr>name = ''Star'', mass = 1, position = 0, velocity = 1, color = ''orange''\<rparr>]
       1 1 ''VeRLeT'' compute_accelerations None \<lparr>heap = [(0, 0), (1, 0)], evals = []\<rparr>
       = (Inr (ps, vs), w')
     \<and> integrate [\<lparr>name = ''Star'', mass = 1, position = 0, velocity = 1, color = ''orange''\<rparr>]
       1 1 ''leapfrog'' compute_accelerations None \<lparr>heap = [(0, 0), (1, 0)], evals = []\<rparr>
       = (Inr (ps, vs), w')"
proof -
  let ?s = "[\<lparr>name = ''Star'', mass = 1, position = 0::nat, velocity = 1::nat, color = ''orange''\<rparr>]"
  let ?w = "\<lparr>heap = [(0, 0), (1, 0)], evals = []\<rparr>"
  have fok: "\<forall>sys. length sys = length ?s \<longrightarrow>
      (\<exists>a. compute_accelerations sys None = Inr a \<and> length a = length ?s)"
    using compute_accelerations_total[of _ 0] by simp
  have c: "(0::int) \<le> \<lceil>1::real\<rceil>" "?s \<noteq> []" by simp_all
  from integrate_verlet_alias [OF lower_VeRLeT, of ?s 1 1 compute_accelerations None ?w]
    true_div_1_1 c fok
  show ?thesis by blast
qed

text \<open>
  The call can fail: with \<open>dt = 0\<close> the state is copied, then the division in the leapfrog
  integrator raises, and no arrays are returned.
\<close>

theorem integrate_verlet_alias_counterexample:
  "integrate [\<lparr>name = ''Star'', mass = 1, position = 0, velocity = 1, color = ''orange''\<rparr>]
       1 0 ''verlet'' compute_accelerations None \<lparr>heap = [(0, 0), (1, 0)], evals = []\<rparr>
     = (Inl ZeroDivisionError, \<lparr>heap = [(0, 0), (1, 0), (0, 0), (1, 0)], evals = []\<rparr>)"
  by (simp add: integrate_def map_of_integrators lower_verlet seq_state_copy
        leapfrog_raises[OF n_steps_of_zero] body_copy_def)

end
